theory Spec2Isabelle
  imports Complex_Main
begin

section \<open>Python and numpy values\<close>

text \<open>
  The program is the script \<^verbatim>\<open>dg1d/euler/euler.py\<close>: a one-dimensional
  discontinuous Galerkin solver for the Euler equations with a three-stage
  Runge-Kutta time integrator.

  Python floats are modelled by the real numbers: rounding, infinities and NaN are not
  represented. A one-dimensional numpy array is a list, a two-dimensional array a list
  of rows. Python integers are \<open>int\<close>, so that the negative indices the script uses
  (\<^verbatim>\<open>Vu[-1,:]\<close>, \<^verbatim>\<open>rho1[-1,:]\<close>) are indices of the model too. An exception is the
  left injection of a sum type.
\<close>

datatype error = ZeroDivisionError | ValueError | IndexError

type_synonym vec = "real list"
type_synonym mat = "real list list"

definition bind_res :: "error + 'a \<Rightarrow> ('a \<Rightarrow> error + 'b) \<Rightarrow> error + 'b" where
  "bind_res m f = (case m of Inl e \<Rightarrow> Inl e | Inr x \<Rightarrow> f x)"

text \<open>\<^verbatim>\<open>for i in is: body\<close>, stopping at the first exception.\<close>

fun for_each :: "'i list \<Rightarrow> ('i \<Rightarrow> 's \<Rightarrow> error + 's) \<Rightarrow> 's \<Rightarrow> error + 's" where
  "for_each [] body s = Inr s"
| "for_each (i # js) body s = bind_res (body i s) (for_each js body)"

text \<open>\<^verbatim>\<open>range(a, b)\<close>: the integers from \<open>a\<close> up to \<open>b - 1\<close>, none when \<open>b \<le> a\<close>.\<close>

definition range_py :: "int \<Rightarrow> int \<Rightarrow> int list" where
  "range_py a b = map (\<lambda>n. a + int n) [0..<nat (b - a)]"

text \<open>
  Division of Python floats raises on a zero divisor. (With a numpy scalar as divisor
  Python gives an infinity or NaN and a warning instead; the real numbers have neither,
  and the model stops with the same error value.)
\<close>

definition fdiv :: "real \<Rightarrow> real \<Rightarrow> error + real" where
  "fdiv a b = (if b = 0 then Inl ZeroDivisionError else Inr (a / b))"

text \<open>
  Indexing: an index \<open>i\<close> of an axis of length \<open>n\<close> is valid when \<open>-n \<le> i < n\<close>, and a
  negative one counts from the end. \<open>py_index\<close> gives the position read or written.
\<close>

definition py_index :: "'a list \<Rightarrow> int \<Rightarrow> error + nat" where
  "py_index xs i =
     (let n = int (length xs); j = (if i < 0 then n + i else i)
      in if 0 \<le> j \<and> j < n then Inr (nat j) else Inl IndexError)"

text \<open>\<^verbatim>\<open>A[i,:]\<close> of a matrix, \<^verbatim>\<open>a[i]\<close> of a vector.\<close>

definition row :: "'a list \<Rightarrow> int \<Rightarrow> error + 'a" where
  "row A i = bind_res (py_index A i) (\<lambda>p. Inr (A ! p))"

text \<open>\<^verbatim>\<open>A[:,j]\<close>: entry \<open>j\<close> of every row.\<close>

fun col :: "mat \<Rightarrow> int \<Rightarrow> error + vec" where
  "col [] j = Inr []"
| "col (r # A) j = bind_res (row r j) (\<lambda>x. bind_res (col A j) (\<lambda>xs. Inr (x # xs)))"

text \<open>\<^verbatim>\<open>A[i,j] = v\<close>.\<close>

definition set2 :: "mat \<Rightarrow> int \<Rightarrow> int \<Rightarrow> real \<Rightarrow> error + mat" where
  "set2 A i j v =
     bind_res (py_index A i) (\<lambda>p.
     bind_res (py_index (A ! p) j) (\<lambda>q.
     Inr (A[p := (A ! p)[q := v]])))"

text \<open>
  Arithmetic on arrays of equal shape: \<^verbatim>\<open>a.dot(b)\<close>, \<^verbatim>\<open>a*b\<close>, \<^verbatim>\<open>M.dot(v)\<close>, \<^verbatim>\<open>x*v\<close>.
  Every array of the script is allocated with its final shape and only written through
  indices and slices, so the operands below always have equal shapes.
\<close>

definition dot :: "vec \<Rightarrow> vec \<Rightarrow> real" where
  "dot a b = sum_list (map2 (*) a b)"

definition vmul :: "vec \<Rightarrow> vec \<Rightarrow> vec" where
  "vmul a b = map2 (*) a b"

definition matvec :: "mat \<Rightarrow> vec \<Rightarrow> vec" where
  "matvec M v = map (\<lambda>r. dot r v) M"

definition scal :: "real \<Rightarrow> vec \<Rightarrow> vec" where
  "scal x v = map ((*) x) v"

text \<open>\<^verbatim>\<open>A[i,:] += x*V[r,:]\<close> and \<^verbatim>\<open>A[i,:] -= x*V[r,:]\<close>.\<close>

definition add_scaled :: "mat \<Rightarrow> int \<Rightarrow> real \<Rightarrow> mat \<Rightarrow> int \<Rightarrow> error + mat" where
  "add_scaled A i x V r =
     bind_res (row V r) (\<lambda>v.
     bind_res (py_index A i) (\<lambda>p.
     Inr (A[p := map2 (+) (A ! p) (scal x v)])))"

definition sub_scaled :: "mat \<Rightarrow> int \<Rightarrow> real \<Rightarrow> mat \<Rightarrow> int \<Rightarrow> error + mat" where
  "sub_scaled A i x V r =
     bind_res (row V r) (\<lambda>v.
     bind_res (py_index A i) (\<lambda>p.
     Inr (A[p := map2 (-) (A ! p) (scal x v)])))"

text \<open>\<^verbatim>\<open>A[i,:].dot(V[r,:])\<close>: the value at an edge of the polynomial of cell \<open>i\<close>.\<close>

definition edge_value :: "mat \<Rightarrow> int \<Rightarrow> mat \<Rightarrow> int \<Rightarrow> error + real" where
  "edge_value A i V r =
     bind_res (row A i) (\<lambda>a. bind_res (row V r) (\<lambda>v. Inr (dot a v)))"

text \<open>\<^verbatim>\<open>np.zeros((n,m))\<close> and \<^verbatim>\<open>np.linspace(a, b, n)\<close> (for \<open>n \<ge> 2\<close>).\<close>

definition zeros :: "int \<Rightarrow> int \<Rightarrow> error + mat" where
  "zeros n m =
     (if n < 0 \<or> m < 0 then Inl ValueError
      else Inr (replicate (nat n) (replicate (nat m) 0)))"

definition linspace :: "real \<Rightarrow> real \<Rightarrow> int \<Rightarrow> vec" where
  "linspace a b n =
     map (\<lambda>i. a + real_of_int i * ((b - a) / real_of_int (n - 1))) (range_py 0 n)"

text \<open>\<^verbatim>\<open>a*U0 + b*(U1 - l*R)\<close> on matrices of one shape.\<close>

definition rk_combine :: "real \<Rightarrow> real \<Rightarrow> real \<Rightarrow> mat \<Rightarrow> mat \<Rightarrow> mat \<Rightarrow> mat" where
  "rk_combine a b l U0 U1 R =
     map2 (map2 (+)) (map (scal a) U0) (map (scal b) (map2 (map2 (-)) U1 (map (scal l) R)))"

section \<open>Collaborators and configuration\<close>

text \<open>
  The script imports its basis functions (\<^verbatim>\<open>from basis import *\<close>), the physics and the
  initial condition (\<^verbatim>\<open>from sod import *\<close>) and takes its quadrature rule from numpy.
  None of them is part of the script: they are parameters of the model. The flux
  functions take and return the three fields (density, momentum, energy).
\<close>

record collab =
  shape_value :: "int \<Rightarrow> real \<Rightarrow> real"
  shape_grad :: "int \<Rightarrow> real \<Rightarrow> real"
  leggauss :: "int \<Rightarrow> vec \<times> vec"
  xmin :: real
  xmax :: real
  initial_condition :: "vec \<Rightarrow> vec \<times> vec \<times> vec"
  flux :: "vec \<Rightarrow> vec \<Rightarrow> vec \<Rightarrow> vec \<times> vec \<times> vec"
  numflux :: "real \<times> real \<times> real \<Rightarrow> real \<times> real \<times> real \<Rightarrow> real \<times> real \<times> real"
  max_speed :: "mat \<Rightarrow> mat \<Rightarrow> mat \<Rightarrow> real"

datatype yesno = No | Yes

text \<open>The command line, after \<^verbatim>\<open>parser.parse_args()\<close>; \<open>args_x\<close> is \<^verbatim>\<open>args.x\<close>.\<close>

record args =
  args_ncell :: int
  args_degree :: int
  args_cfl :: real
  args_Tf :: real
  args_plot_freq :: int
  args_limit :: yesno
  args_tvbM :: real

text \<open>The script's global variables that are set once, before the time loop.\<close>

record tables =
  k :: int
  cfl :: real
  nc :: int
  nd :: int
  dx :: real
  Mdx2 :: real
  xg :: vec
  wg :: vec
  Vf :: mat
  Vg :: mat
  nu :: int
  xu :: vec
  Vu :: mat
  Tf :: real

text \<open>The variables the time loop reads and writes.\<close>

record sim =
  it :: int
  t :: real
  dt :: real
  lam :: real
  rho0 :: mat
  rho1 :: mat
  mom0 :: mat
  mom1 :: mat
  ene0 :: mat
  ene1 :: mat
  resr :: mat
  resm :: mat
  rese :: mat

section \<open>Set-up: quadrature and basis tables\<close>

text \<open>
  Lines 35 to 61. \<^verbatim>\<open>dx = (xmax - xmin)/nc\<close> raises for \<open>nc = 0\<close>, numpy's
  \<^verbatim>\<open>leggauss(k+1)\<close> raises ValueError unless \<open>k + 1 \<ge> 1\<close>, and returns \<open>k + 1\<close> nodes and
  weights. The tables \<open>Vf\<close>, \<open>Vg\<close>, \<open>Vu\<close> are filled entry by entry by two nested loops
  over all their indices; the model writes the filled table at once.
\<close>

definition basis_table :: "(int \<Rightarrow> real \<Rightarrow> real) \<Rightarrow> vec \<Rightarrow> int \<Rightarrow> int \<Rightarrow> mat" where
  "basis_table f pts n m =
     map (\<lambda>i. map (\<lambda>j. f j (pts ! nat i)) (range_py 0 m)) (range_py 0 n)"

definition init_tables :: "collab \<Rightarrow> args \<Rightarrow> error + tables" where
  "init_tables c a =
     (let k' = args_degree a;
          cfl' = args_cfl a / real_of_int (2 * k' + 1);
          nc' = args_ncell a;
          nd' = k' + 1
      in if nc' = 0 then Inl ZeroDivisionError
         else
           let dx' = (xmax c - xmin c) / real_of_int nc';
               Mdx2' = args_tvbM a * dx' ^ 2
           in if k' + 1 \<le> 0 then Inl ValueError
              else
                let (xg', wg') = leggauss c (k' + 1);
                    nu' = max 2 (k' + 1);
                    xu' = linspace (-1) 1 nu'
                in Inr \<lparr>k = k', cfl = cfl', nc = nc', nd = nd', dx = dx', Mdx2 = Mdx2',
                        xg = xg', wg = wg',
                        Vf = basis_table (shape_value c) xg' nd' nd',
                        Vg = basis_table (shape_grad c) xg' nd' nd',
                        nu = nu', xu = xu',
                        Vu = basis_table (shape_value c) xu' nu' (k' + 1),
                        Tf = args_Tf a\<rparr>)"

section \<open>State allocation and projection of the initial condition\<close>

text \<open>
  Lines 97 to 105 allocate the nine arrays; \<open>it\<close>, \<open>t\<close>, \<open>dt\<close> and \<open>lam\<close> are assigned
  on lines 123 to 126 and are not read before: the record holds zeros until then.
\<close>

definition allocate :: "tables \<Rightarrow> error + sim" where
  "allocate T =
     bind_res (zeros (nc T) (nd T)) (\<lambda>z.
     Inr \<lparr>it = 0, t = 0, dt = 0, lam = 0,
          rho0 = z, rho1 = z, mom0 = z, mom1 = z, ene0 = z, ene1 = z,
          resr = z, resm = z, rese = z\<rparr>)"

text \<open>Lines 112 to 115: the three coefficients of mode \<open>j\<close> in cell \<open>i\<close>.\<close>

definition project_mode :: "tables \<Rightarrow> vec \<Rightarrow> vec \<Rightarrow> vec \<Rightarrow> int \<Rightarrow> int \<Rightarrow> sim \<Rightarrow> error + sim" where
  "project_mode T rho mom ene i j s =
     bind_res (col (Vf T) j) (\<lambda>v.
     bind_res (set2 (rho1 s) i j (0.5 * dot rho (vmul v (wg T)))) (\<lambda>r.
     bind_res (set2 (mom1 s) i j (0.5 * dot mom (vmul v (wg T)))) (\<lambda>m.
     bind_res (set2 (ene1 s) i j (0.5 * dot ene (vmul v (wg T)))) (\<lambda>e.
     Inr (s\<lparr>rho1 := r, mom1 := m, ene1 := e\<rparr>)))))"

text \<open>Lines 108 to 115: the body of the loop over cells.\<close>

definition project_cell :: "collab \<Rightarrow> tables \<Rightarrow> int \<Rightarrow> sim \<Rightarrow> error + sim" where
  "project_cell c T i s =
     (let xc = xmin c + real_of_int i * dx T + 0.5 * dx T;
          x = map (\<lambda>g. xc + 0.5 * dx T * g) (xg T);
          (rho, mom, ene) = initial_condition c x
      in for_each (range_py 0 (nd T)) (project_mode T rho mom ene i) s)"

definition project :: "collab \<Rightarrow> tables \<Rightarrow> sim \<Rightarrow> error + sim" where
  "project c T s = for_each (range_py 0 (nc T)) (project_cell c T) s"

section \<open>Residual assembly\<close>

text \<open>Lines 143 to 146: the volume residual of mode \<open>j\<close> in cell \<open>i\<close>.\<close>

definition volume_mode :: "tables \<Rightarrow> vec \<Rightarrow> vec \<Rightarrow> vec \<Rightarrow> int \<Rightarrow> int \<Rightarrow> sim \<Rightarrow> error + sim" where
  "volume_mode T frho fmom fene i j s =
     bind_res (col (Vg T) j) (\<lambda>g.
     bind_res (set2 (resr s) i j (- dot frho (vmul g (wg T)))) (\<lambda>r.
     bind_res (set2 (resm s) i j (- dot fmom (vmul g (wg T)))) (\<lambda>m.
     bind_res (set2 (rese s) i j (- dot fene (vmul g (wg T)))) (\<lambda>e.
     Inr (s\<lparr>resr := r, resm := m, rese := e\<rparr>)))))"

text \<open>Lines 136 to 146: the body of the loop over cells.\<close>

definition volume_cell :: "collab \<Rightarrow> tables \<Rightarrow> int \<Rightarrow> sim \<Rightarrow> error + sim" where
  "volume_cell c T i s =
     bind_res (row (rho1 s) i) (\<lambda>a.
     bind_res (row (mom1 s) i) (\<lambda>b.
     bind_res (row (ene1 s) i) (\<lambda>d.
     (let rho = matvec (Vf T) a;
          mom = matvec (Vf T) b;
          ene = matvec (Vf T) d;
          (frho, fmom, fene) = flux c rho mom ene
      in for_each (range_py 0 (nd T)) (volume_mode T frho fmom fene i) s))))"

definition volume_loop :: "collab \<Rightarrow> tables \<Rightarrow> sim \<Rightarrow> error + sim" where
  "volume_loop c T s = for_each (range_py 0 (nc T)) (volume_cell c T) s"

text \<open>Lines 147 to 157: the first face.\<close>

definition first_face :: "collab \<Rightarrow> tables \<Rightarrow> sim \<Rightarrow> error + sim" where
  "first_face c T s =
     bind_res (edge_value (rho1 s) 0 (Vu T) 0) (\<lambda>rhol.
     bind_res (edge_value (rho1 s) 0 (Vu T) 0) (\<lambda>rhor.
     bind_res (edge_value (mom1 s) 0 (Vu T) 0) (\<lambda>moml.
     bind_res (edge_value (mom1 s) 0 (Vu T) 0) (\<lambda>momr.
     bind_res (edge_value (ene1 s) 0 (Vu T) 0) (\<lambda>enel.
     bind_res (edge_value (ene1 s) 0 (Vu T) 0) (\<lambda>ener.
     (let (f0, f1, f2) = numflux c (rhol, moml, enel) (rhor, momr, ener)
      in bind_res (sub_scaled (resr s) 0 f0 (Vu T) 0) (\<lambda>r.
         bind_res (sub_scaled (resm s) 0 f1 (Vu T) 0) (\<lambda>m.
         bind_res (sub_scaled (rese s) 0 f2 (Vu T) 0) (\<lambda>e.
         Inr (s\<lparr>resr := r, resm := m, rese := e\<rparr>)))))))))))"

text \<open>Lines 160 to 173: the face between the cells \<open>i - 1\<close> and \<open>i\<close>.\<close>

definition interior_face :: "collab \<Rightarrow> tables \<Rightarrow> int \<Rightarrow> sim \<Rightarrow> error + sim" where
  "interior_face c T i s =
     bind_res (edge_value (rho1 s) (i - 1) (Vu T) (- 1)) (\<lambda>rhol.
     bind_res (edge_value (rho1 s) i (Vu T) 0) (\<lambda>rhor.
     bind_res (edge_value (mom1 s) (i - 1) (Vu T) (- 1)) (\<lambda>moml.
     bind_res (edge_value (mom1 s) i (Vu T) 0) (\<lambda>momr.
     bind_res (edge_value (ene1 s) (i - 1) (Vu T) (- 1)) (\<lambda>enel.
     bind_res (edge_value (ene1 s) i (Vu T) 0) (\<lambda>ener.
     (let (f0, f1, f2) = numflux c (rhol, moml, enel) (rhor, momr, ener)
      in bind_res (add_scaled (resr s) (i - 1) f0 (Vu T) (- 1)) (\<lambda>r.
         bind_res (sub_scaled r i f0 (Vu T) 0) (\<lambda>r'.
         bind_res (add_scaled (resm s) (i - 1) f1 (Vu T) (- 1)) (\<lambda>m.
         bind_res (sub_scaled m i f1 (Vu T) 0) (\<lambda>m'.
         bind_res (add_scaled (rese s) (i - 1) f2 (Vu T) (- 1)) (\<lambda>e.
         bind_res (sub_scaled e i f2 (Vu T) 0) (\<lambda>e'.
         Inr (s\<lparr>resr := r', resm := m', rese := e'\<rparr>))))))))))))))"

definition interior_faces :: "collab \<Rightarrow> tables \<Rightarrow> sim \<Rightarrow> error + sim" where
  "interior_faces c T s = for_each (range_py 1 (nc T)) (interior_face c T) s"

text \<open>Lines 174 to 184: the last face.\<close>

definition last_face :: "collab \<Rightarrow> tables \<Rightarrow> sim \<Rightarrow> error + sim" where
  "last_face c T s =
     bind_res (edge_value (rho1 s) (- 1) (Vu T) 0) (\<lambda>rhol.
     bind_res (edge_value (rho1 s) (- 1) (Vu T) 0) (\<lambda>rhor.
     bind_res (edge_value (mom1 s) (- 1) (Vu T) 0) (\<lambda>moml.
     bind_res (edge_value (mom1 s) (- 1) (Vu T) 0) (\<lambda>momr.
     bind_res (edge_value (ene1 s) (- 1) (Vu T) 0) (\<lambda>enel.
     bind_res (edge_value (ene1 s) (- 1) (Vu T) 0) (\<lambda>ener.
     (let (f0, f1, f2) = numflux c (rhol, moml, enel) (rhor, momr, ener)
      in bind_res (add_scaled (resr s) (- 1) f0 (Vu T) 0) (\<lambda>r.
         bind_res (add_scaled (resm s) (- 1) f1 (Vu T) 0) (\<lambda>m.
         bind_res (add_scaled (rese s) (- 1) f2 (Vu T) 0) (\<lambda>e.
         Inr (s\<lparr>resr := r, resm := m, rese := e\<rparr>)))))))))))"

text \<open>Lines 136 to 184: the residual of the working state.\<close>

definition residual :: "collab \<Rightarrow> tables \<Rightarrow> sim \<Rightarrow> error + sim" where
  "residual c T s =
     bind_res (volume_loop c T s) (\<lambda>s1.
     bind_res (first_face c T s1) (\<lambda>s2.
     bind_res (interior_faces c T s2) (\<lambda>s3.
     last_face c T s3)))"

section \<open>Time integration\<close>

text \<open>Lines 8 and 9.\<close>

definition ark :: vec where
  "ark = [0, 3 / 4, 1 / 3]"

definition brk :: vec where
  "brk = map (\<lambda>a. 1 - a) ark"

text \<open>Lines 186 to 188.\<close>

definition rk_update :: "int \<Rightarrow> sim \<Rightarrow> error + sim" where
  "rk_update rk s =
     bind_res (row ark rk) (\<lambda>a.
     bind_res (row brk rk) (\<lambda>b.
     Inr (s\<lparr>rho1 := rk_combine a b (lam s) (rho0 s) (rho1 s) (resr s),
            mom1 := rk_combine a b (lam s) (mom0 s) (mom1 s) (resm s),
            ene1 := rk_combine a b (lam s) (ene0 s) (ene1 s) (rese s)\<rparr>)))"

text \<open>Lines 135 to 188: the body of the loop over the stages.\<close>

definition stage :: "collab \<Rightarrow> tables \<Rightarrow> int \<Rightarrow> sim \<Rightarrow> error + sim" where
  "stage c T rk s = bind_res (residual c T s) (rk_update rk)"

text \<open>Lines 128 to 130.\<close>

definition clip :: "tables \<Rightarrow> sim \<Rightarrow> error + sim" where
  "clip T s =
     (if t s + dt s > Tf T
      then bind_res (fdiv (Tf T - t s) (dx T)) (\<lambda>l. Inr (s\<lparr>dt := Tf T - t s, lam := l\<rparr>))
      else Inr s)"

text \<open>
  Lines 128 to 189: the body of the time loop. The plot update of lines 190 and 191
  reads the state and changes none of these variables.
\<close>

definition step :: "collab \<Rightarrow> tables \<Rightarrow> sim \<Rightarrow> error + sim" where
  "step c T s =
     bind_res (clip T s) (\<lambda>s1.
     bind_res (for_each (range_py 0 3) (stage c T)
                 (s1\<lparr>rho0 := rho1 s1, mom0 := mom1 s1, ene0 := ene1 s1\<rparr>)) (\<lambda>s2.
     Inr (s2\<lparr>t := t s2 + dt s2, it := it s2 + 1\<rparr>)))"

text \<open>Line 127: the time loop. \<open>None\<close> is a loop that never ends.\<close>

partial_function (option) time_loop :: "collab \<Rightarrow> tables \<Rightarrow> sim \<Rightarrow> (error + sim) option" where
  "time_loop c T s =
     (if t s < Tf T
      then (case step c T s of Inl e \<Rightarrow> Some (Inl e) | Inr s' \<Rightarrow> time_loop c T s')
      else Some (Inr s))"

text \<open>Lines 123 to 126: the variables of the time loop before its first step.\<close>

definition start :: "collab \<Rightarrow> tables \<Rightarrow> sim \<Rightarrow> error + sim" where
  "start c T s =
     bind_res (fdiv (cfl T * dx T) (max_speed c (rho1 s) (mom1 s) (ene1 s))) (\<lambda>d.
     bind_res (fdiv d (dx T)) (\<lambda>l.
     Inr (s\<lparr>it := 0, t := 0, dt := d, lam := l\<rparr>)))"

text \<open>Lines 35 to 126: everything before the time loop.\<close>

definition prepare :: "collab \<Rightarrow> args \<Rightarrow> error + tables \<times> sim" where
  "prepare c a =
     bind_res (init_tables c a) (\<lambda>T.
     bind_res (allocate T) (\<lambda>s0.
     bind_res (project c T s0) (\<lambda>s1.
     bind_res (start c T s1) (\<lambda>s2.
     Inr (T, s2)))))"

text \<open>The whole script: the final state, an exception, or no result at all.\<close>

definition run :: "collab \<Rightarrow> args \<Rightarrow> (error + sim) option" where
  "run c a =
     (case prepare c a of
        Inl e \<Rightarrow> Some (Inl e)
      | Inr (T, s) \<Rightarrow> time_loop c T s)"

section \<open>Shapes and closed forms\<close>

text \<open>
  The arrays of the state have \<open>nc\<close> rows of \<open>nd\<close> entries; the tables have the shapes
  the set-up gives them. The theorems below are about states and tables of these shapes.
\<close>

definition has_shape :: "int \<Rightarrow> int \<Rightarrow> mat \<Rightarrow> bool" where
  "has_shape n m A = (int (length A) = n \<and> list_all (\<lambda>r. int (length r) = m) A)"

definition shaped :: "tables \<Rightarrow> sim \<Rightarrow> bool" where
  "shaped T s =
     (has_shape (nc T) (nd T) (rho0 s) \<and> has_shape (nc T) (nd T) (rho1 s) \<and>
      has_shape (nc T) (nd T) (mom0 s) \<and> has_shape (nc T) (nd T) (mom1 s) \<and>
      has_shape (nc T) (nd T) (ene0 s) \<and> has_shape (nc T) (nd T) (ene1 s) \<and>
      has_shape (nc T) (nd T) (resr s) \<and> has_shape (nc T) (nd T) (resm s) \<and>
      has_shape (nc T) (nd T) (rese s))"

definition tables_ok :: "tables \<Rightarrow> bool" where
  "tables_ok T = (1 \<le> nc T \<and> 0 \<le> k T \<and> nd T = k T + 1 \<and> nu T = max 2 (k T + 1)
     \<and> has_shape (nd T) (nd T) (Vf T) \<and> has_shape (nd T) (nd T) (Vg T)
     \<and> has_shape (nu T) (nd T) (Vu T))"

text \<open>
  The value line 144 writes for mode \<open>j\<close> from the flux \<open>f\<close> at the Gauss points, and the
  value line 113 writes from the samples \<open>f\<close> of the initial condition.
\<close>

definition volume_entry :: "tables \<Rightarrow> vec \<Rightarrow> int \<Rightarrow> real" where
  "volume_entry T f j = - dot f (vmul (map (\<lambda>r. r ! nat j) (Vg T)) (wg T))"

definition project_entry :: "tables \<Rightarrow> vec \<Rightarrow> int \<Rightarrow> real" where
  "project_entry T f j = 0.5 * dot f (vmul (map (\<lambda>r. r ! nat j) (Vf T)) (wg T))"

text \<open>The flux at the Gauss points of cell \<open>i\<close> (lines 139 to 142).\<close>

definition cell_flux :: "collab \<Rightarrow> tables \<Rightarrow> sim \<Rightarrow> int \<Rightarrow> vec \<times> vec \<times> vec" where
  "cell_flux c T s i =
     flux c (matvec (Vf T) (rho1 s ! nat i)) (matvec (Vf T) (mom1 s ! nat i))
            (matvec (Vf T) (ene1 s ! nat i))"

definition volume_rows :: "tables \<Rightarrow> (int \<Rightarrow> vec) \<Rightarrow> int \<Rightarrow> mat" where
  "volume_rows T f n = map (\<lambda>i. map (volume_entry T (f i)) (range_py 0 (nd T))) (range_py 0 n)"

text \<open>The Gauss points of cell \<open>i\<close> and the initial condition there (lines 109 to 111).\<close>

definition cell_points :: "collab \<Rightarrow> tables \<Rightarrow> int \<Rightarrow> vec" where
  "cell_points c T i =
     map (\<lambda>g. (xmin c + real_of_int i * dx T + 0.5 * dx T) + 0.5 * dx T * g) (xg T)"

definition cell_ic :: "collab \<Rightarrow> tables \<Rightarrow> int \<Rightarrow> vec \<times> vec \<times> vec" where
  "cell_ic c T i = initial_condition c (cell_points c T i)"

definition project_rows :: "tables \<Rightarrow> (int \<Rightarrow> vec) \<Rightarrow> int \<Rightarrow> mat" where
  "project_rows T f n = map (\<lambda>i. map (project_entry T (f i)) (range_py 0 (nd T))) (range_py 0 n)"

text \<open>
  The three fields of cell \<open>p\<close> evaluated with the basis row \<open>v\<close>, and the numerical
  fluxes the three kinds of faces compute from them.
\<close>

definition edge_state :: "sim \<Rightarrow> nat \<Rightarrow> vec \<Rightarrow> real \<times> real \<times> real" where
  "edge_state s p v = (dot (rho1 s ! p) v, dot (mom1 s ! p) v, dot (ene1 s ! p) v)"

definition first_flux :: "collab \<Rightarrow> tables \<Rightarrow> sim \<Rightarrow> real \<times> real \<times> real" where
  "first_flux c T s = numflux c (edge_state s 0 (Vu T ! 0)) (edge_state s 0 (Vu T ! 0))"

definition interior_flux :: "collab \<Rightarrow> tables \<Rightarrow> sim \<Rightarrow> int \<Rightarrow> real \<times> real \<times> real" where
  "interior_flux c T s i =
     numflux c (edge_state s (nat (i - 1)) (Vu T ! (nat (nu T) - 1))) (edge_state s (nat i) (Vu T ! 0))"

definition last_flux :: "collab \<Rightarrow> tables \<Rightarrow> sim \<Rightarrow> real \<times> real \<times> real" where
  "last_flux c T s =
     numflux c (edge_state s (nat (nc T) - 1) (Vu T ! 0)) (edge_state s (nat (nc T) - 1) (Vu T ! 0))"

text \<open>
  \<open>res_frame s s'\<close>: \<open>s'\<close> differs from \<open>s\<close> in the residual arrays at most.
  \<open>stage_frame s s'\<close>: \<open>s'\<close> differs from \<open>s\<close> in the residual arrays and the working
  state at most.
\<close>

definition res_frame :: "sim \<Rightarrow> sim \<Rightarrow> bool" where
  "res_frame s s' =
     (it s' = it s \<and> t s' = t s \<and> dt s' = dt s \<and> lam s' = lam s \<and>
      rho0 s' = rho0 s \<and> rho1 s' = rho1 s \<and> mom0 s' = mom0 s \<and> mom1 s' = mom1 s \<and>
      ene0 s' = ene0 s \<and> ene1 s' = ene1 s)"

definition stage_frame :: "sim \<Rightarrow> sim \<Rightarrow> bool" where
  "stage_frame s s' =
     (it s' = it s \<and> t s' = t s \<and> dt s' = dt s \<and> lam s' = lam s \<and>
      rho0 s' = rho0 s \<and> mom0 s' = mom0 s \<and> ene0 s' = ene0 s)"

section \<open>The iterations of the time loop\<close>

text \<open>
  \<open>loop_at c T s0 s\<close>: the time loop entered in state \<open>s0\<close> evaluates its condition in
  state \<open>s\<close>, at once or after some iterations.
\<close>

inductive loop_at :: "collab \<Rightarrow> tables \<Rightarrow> sim \<Rightarrow> sim \<Rightarrow> bool" for c T s0 where
  loop_start: "loop_at c T s0 s0"
| loop_step: "loop_at c T s0 s \<Longrightarrow> t s < Tf T \<Longrightarrow> step c T s = Inr s' \<Longrightarrow> loop_at c T s0 s'"

section \<open>The Runge-Kutta stage as the specification words it\<close>

text \<open>
  \<open>u1 = a*u0 + b*(u1 - lambda*residual(u1))\<close>, entry by entry, for one field and for the
  three fields: \<open>s0\<close> holds the state at the start of the step, \<open>v\<close> the working state
  before the stage, \<open>r\<close> its residual and \<open>v'\<close> the working state after the stage.
\<close>

definition rk_formula :: "tables \<Rightarrow> real \<Rightarrow> real \<Rightarrow> real \<Rightarrow> mat \<Rightarrow> mat \<Rightarrow> mat \<Rightarrow> mat \<Rightarrow> bool" where
  "rk_formula T a b l U0 U1 R U1' =
     list_all (\<lambda>i. list_all (\<lambda>j.
         U1' ! i ! j = a * U0 ! i ! j + b * (U1 ! i ! j - l * R ! i ! j))
       [0..<nat (nd T)]) [0..<nat (nc T)]"

definition rk_stage_spec :: "tables \<Rightarrow> real \<Rightarrow> real \<Rightarrow> real \<Rightarrow> sim \<Rightarrow> sim \<Rightarrow> sim \<Rightarrow> sim \<Rightarrow> bool" where
  "rk_stage_spec T a b l s0 v r v' =
     (rk_formula T a b l (rho1 s0) (rho1 v) (resr r) (rho1 v') \<and>
      rk_formula T a b l (mom1 s0) (mom1 v) (resm r) (mom1 v') \<and>
      rk_formula T a b l (ene1 s0) (ene1 v) (rese r) (ene1 v'))"

section \<open>Cell polynomials, the Gauss inner product and the total mass\<close>

text \<open>
  The polynomial of a cell with coefficients \<open>a\<close>, at the reference coordinate \<open>x\<close>: the
  script evaluates it at the Gauss points (\<^verbatim>\<open>Vf.dot(rho1[i,:])\<close>) and at the uniform
  points (\<^verbatim>\<open>Vu.dot(rho[i,:])\<close>).
\<close>

definition poly_value :: "collab \<Rightarrow> tables \<Rightarrow> vec \<Rightarrow> real \<Rightarrow> real" where
  "poly_value c T a x = dot a (map (\<lambda>j. shape_value c j x) (range_py 0 (nd T)))"

text \<open>
  The inner product \<open>1/2 \<integral> f g\<close> on \<open>[-1, 1]\<close> of two basis functions, as the Gauss rule
  of the script computes it. The rule with \<open>k + 1\<close> points is exact through degree
  \<open>2k + 1\<close> and a product of two basis polynomials has degree at most \<open>2k\<close>, so a basis is
  orthonormal for the integral exactly when it is for this sum.
\<close>

definition gauss_inner :: "collab \<Rightarrow> tables \<Rightarrow> int \<Rightarrow> int \<Rightarrow> real" where
  "gauss_inner c T i j =
     0.5 * dot (vmul (map (shape_value c i) (xg T)) (map (shape_value c j) (xg T))) (wg T)"

definition orthonormal :: "collab \<Rightarrow> tables \<Rightarrow> bool" where
  "orthonormal c T =
     list_all (\<lambda>i. list_all (\<lambda>j. gauss_inner c T i j = (if i = j then 1 else 0))
       (range_py 0 (nd T))) (range_py 0 (nd T))"



section \<open>A concrete configuration\<close>

text \<open>
  Collaborators for the examples: the Legendre basis of degree at most one, orthonormal
  for the inner product \<open>1/2 \<integral> f g\<close> on \<open>[-1, 1]\<close>, with the one-point and two-point
  Gauss rules; the domain \<open>[0, 1]\<close>; a constant initial state; linear advection of the
  three fields with an upwind numerical flux and wave speed one. The command line is the
  script's default but for two cells.
\<close>

definition ex_collab :: collab where
  "ex_collab =
     \<lparr>shape_value = (\<lambda>j x. if j = 0 then 1 else sqrt 3 * x),
      shape_grad = (\<lambda>j x. if j = 0 then 0 else sqrt 3),
      leggauss = (\<lambda>n. if n = 1 then ([0], [2]) else ([- (1 / sqrt 3), 1 / sqrt 3], [1, 1])),
      xmin = 0, xmax = 1,
      initial_condition = (\<lambda>x. (map (\<lambda>_. 1) x, map (\<lambda>_. 0) x, map (\<lambda>_. 5 / 2) x)),
      flux = (\<lambda>rho mom ene. (rho, mom, ene)),
      numflux = (\<lambda>l r. l),
      max_speed = (\<lambda>rho mom ene. 1)\<rparr>"

definition ex_args :: args where
  "ex_args = \<lparr>args_ncell = 2, args_degree = 1, args_cfl = 9 / 10, args_Tf = 1,
              args_plot_freq = 1, args_limit = No, args_tvbM = 0\<rparr>"

text \<open>The tables of this configuration, and its state before the first step.\<close>

definition ex_tables :: tables where
  "ex_tables =
     \<lparr>k = 1, cfl = 3 / 10, nc = 2, nd = 2, dx = 1 / 2, Mdx2 = 0,
      xg = [- (1 / sqrt 3), 1 / sqrt 3], wg = [1, 1],
      Vf = [[1, - 1], [1, 1]], Vg = [[0, sqrt 3], [0, sqrt 3]],
      nu = 2, xu = [- 1, 1], Vu = [[1, - sqrt 3], [1, sqrt 3]], Tf = 1\<rparr>"

definition ex_state :: sim where
  "ex_state =
     \<lparr>it = 0, t = 0, dt = 3 / 20, lam = 3 / 10,
      rho0 = [[0, 0], [0, 0]], rho1 = [[1, 0], [1, 0]],
      mom0 = [[0, 0], [0, 0]], mom1 = [[0, 0], [0, 0]],
      ene0 = [[0, 0], [0, 0]], ene1 = [[5 / 2, 0], [5 / 2, 0]],
      resr = [[0, 0], [0, 0]], resm = [[0, 0], [0, 0]], rese = [[0, 0], [0, 0]]\<rparr>"

text \<open>
  A second configuration: piecewise constant densities, degree zero, and a wave speed that
  depends on the state (the largest cell mean of the density). \<open>cx_state0\<close> is its state
  before the first step and \<open>cx_state1\<close> its state after it.
\<close>

definition cx_collab :: collab where
  "cx_collab = ex_collab
     \<lparr>initial_condition := (\<lambda>x. (map (\<lambda>y. if y < 1 / 2 then 1 else 2) x, map (\<lambda>_. 0) x, map (\<lambda>_. 0) x)),
      max_speed := (\<lambda>rho mom ene. foldr (\<lambda>r m. max \<bar>hd r\<bar> m) rho 0)\<rparr>"

definition cx_args :: args where
  "cx_args = \<lparr>args_ncell = 2, args_degree = 0, args_cfl = 1 / 2, args_Tf = 1,
              args_plot_freq = 1, args_limit = No, args_tvbM = 0\<rparr>"

definition cx_tables :: tables where
  "cx_tables =
     \<lparr>k = 0, cfl = 1 / 2, nc = 2, nd = 1, dx = 1 / 2, Mdx2 = 0,
      xg = [0], wg = [2], Vf = [[1]], Vg = [[0]],
      nu = 2, xu = [- 1, 1], Vu = [[1], [1]], Tf = 1\<rparr>"

definition cx_state0 :: sim where
  "cx_state0 =
     \<lparr>it = 0, t = 0, dt = 1 / 8, lam = 1 / 4,
      rho0 = [[0], [0]], rho1 = [[1], [2]],
      mom0 = [[0], [0]], mom1 = [[0], [0]],
      ene0 = [[0], [0]], ene1 = [[0], [0]],
      resr = [[0], [0]], resm = [[0], [0]], rese = [[0], [0]]\<rparr>"

definition cx_state1 :: sim where
  "cx_state1 =
     \<lparr>it = 1, t = 1 / 8, dt = 1 / 8, lam = 1 / 4,
      rho0 = [[1], [2]], rho1 = [[1], [683 / 384]],
      mom0 = [[0], [0]], mom1 = [[0], [0]],
      ene0 = [[0], [0]], ene1 = [[0], [0]],
      resr = [[0], [57 / 64]], resm = [[0], [0]], rese = [[0], [0]]\<rparr>"

section \<open>Basic facts\<close>

lemma bind_res_Inr [simp]: "bind_res (Inr x) f = f x"
  by (simp add: bind_res_def)

lemma bind_res_Inl [simp]: "bind_res (Inl e) f = Inl e"
  by (simp add: bind_res_def)

lemma for_each_append:
  "for_each (xs @ ys) body s = bind_res (for_each xs body s) (for_each ys body)"
  by (induction xs arbitrary: s) (auto simp: bind_res_def split: sum.splits)

lemma range_py_empty [simp]: "b \<le> a \<Longrightarrow> range_py a b = []"
  by (simp add: range_py_def)

lemma range_py_snoc: "a \<le> b \<Longrightarrow> range_py a (b + 1) = range_py a b @ [b]"
proof -
  assume "a \<le> b"
  then have "nat (b + 1 - a) = Suc (nat (b - a))" by simp
  then show ?thesis by (simp add: range_py_def)
qed

lemma set_range_py [simp]: "set (range_py a b) = {a..<b}"
  apply (auto simp: range_py_def)
  subgoal for x by (rule image_eqI[of _ _ "nat (x - a)"]) auto
  done

lemma length_range_py [simp]: "length (range_py a b) = nat (b - a)"
  by (simp add: range_py_def)

lemma nth_range_py [simp]: "n < nat (b - a) \<Longrightarrow> range_py a b ! n = a + int n"
  by (simp add: range_py_def)

lemma py_index_nonneg: "0 \<le> i \<Longrightarrow> i < int (length xs) \<Longrightarrow> py_index xs i = Inr (nat i)"
  by (simp add: py_index_def Let_def)

lemma py_index_last: "xs \<noteq> [] \<Longrightarrow> py_index xs (- 1) = Inr (length xs - 1)"
  by (cases xs) (auto simp: py_index_def Let_def)

lemma row_nonneg: "0 \<le> i \<Longrightarrow> i < int (length xs) \<Longrightarrow> row xs i = Inr (xs ! nat i)"
  by (simp add: row_def py_index_nonneg)

lemma row_last: "xs \<noteq> [] \<Longrightarrow> row xs (- 1) = Inr (xs ! (length xs - 1))"
  by (simp add: row_def py_index_last)

lemma col_shape:
  "list_all (\<lambda>r. int (length r) = m) A \<Longrightarrow> 0 \<le> j \<Longrightarrow> j < m \<Longrightarrow> col A j = Inr (map (\<lambda>r. r ! nat j) A)"
  by (induction A) (auto simp: row_nonneg)

lemma has_shape_row: "has_shape n m A \<Longrightarrow> 0 \<le> i \<Longrightarrow> i < n \<Longrightarrow> int (length (A ! nat i)) = m"
  by (auto simp: has_shape_def list_all_length)

lemma set2_shape:
  "has_shape n m A \<Longrightarrow> 0 \<le> i \<Longrightarrow> i < n \<Longrightarrow> 0 \<le> j \<Longrightarrow> j < m \<Longrightarrow>
   set2 A i j v = Inr (A[nat i := (A ! nat i)[nat j := v]])"
  by (auto simp: set2_def has_shape_def list_all_length py_index_nonneg)

lemma has_shape_update:
  "has_shape n m A \<Longrightarrow> int (length r) = m \<Longrightarrow> has_shape n m (A[p := r])"
  by (cases "p < length A") (auto simp: has_shape_def list_all_length nth_list_update)

lemma has_shape_nth:
  assumes "has_shape n m A" "0 \<le> i" "i < n"
  shows "length (A ! nat i) = nat m \<and> nat i < length A"
proof -
  have lt: "nat i < length A" using assms by (auto simp: has_shape_def)
  then have "int (length (A ! nat i)) = m"
    using assms(1) by (simp add: has_shape_def list_all_length)
  then show ?thesis using lt by auto
qed

lemma prefix_update:
  "q < length old \<Longrightarrow>
   (map g (range_py 0 (int q)) @ drop q old)[q := g (int q)] =
   map g (range_py 0 (int q + 1)) @ drop (Suc q) old"
  by (simp add: list_update_append range_py_snoc Cons_nth_drop_Suc [symmetric])

lemma range_py_0_Suc:
  "range_py 0 (1 + int q) = range_py 0 (int q) @ [int q]"
  "range_py 0 (int q + 1) = range_py 0 (int q) @ [int q]"
  using range_py_snoc[of 0 "int q"] by (simp_all add: add.commute)

lemma bind_res_return [simp]: "bind_res m Inr = m"
  by (simp add: bind_res_def split: sum.splits)

lemma for_each_Nil [simp]: "for_each [] body = Inr"
  by (rule ext) simp

lemma volume_mode_ok:
  assumes "shaped T s" "tables_ok T" "0 \<le> i" "i < nc T" "0 \<le> j" "j < nd T"
  shows "volume_mode T fr fm fe i j s =
    Inr (s\<lparr>resr := (resr s)[nat i := (resr s ! nat i)[nat j := volume_entry T fr j]],
           resm := (resm s)[nat i := (resm s ! nat i)[nat j := volume_entry T fm j]],
           rese := (rese s)[nat i := (rese s ! nat i)[nat j := volume_entry T fe j]]\<rparr>)"
proof -
  have g: "col (Vg T) j = Inr (map (\<lambda>r. r ! nat j) (Vg T))"
    using assms by (intro col_shape[where m = "nd T"]) (auto simp: tables_ok_def has_shape_def)
  show ?thesis
    using assms
    by (simp add: volume_mode_def g shaped_def set2_shape[where n = "nc T" and m = "nd T"] volume_entry_def)
qed

lemma volume_modes_prefix:
  assumes "shaped T s" "tables_ok T" "0 \<le> i" "i < nc T"
  shows "q \<le> nat (nd T) \<Longrightarrow>
    for_each (range_py 0 (int q)) (volume_mode T fr fm fe i) s =
    Inr (s\<lparr>resr := (resr s)[nat i := map (volume_entry T fr) (range_py 0 (int q)) @ drop q (resr s ! nat i)],
           resm := (resm s)[nat i := map (volume_entry T fm) (range_py 0 (int q)) @ drop q (resm s ! nat i)],
           rese := (rese s)[nat i := map (volume_entry T fe) (range_py 0 (int q)) @ drop q (rese s ! nat i)]\<rparr>)"
proof (induction q)
  case 0
  then show ?case by simp
next
  case (Suc q)
  let ?s' = "s\<lparr>resr := (resr s)[nat i := map (volume_entry T fr) (range_py 0 (int q)) @ drop q (resr s ! nat i)],
           resm := (resm s)[nat i := map (volume_entry T fm) (range_py 0 (int q)) @ drop q (resm s ! nat i)],
           rese := (rese s)[nat i := map (volume_entry T fe) (range_py 0 (int q)) @ drop q (rese s ! nat i)]\<rparr>"
  have len: "length (resr s ! nat i) = nat (nd T)" "length (resm s ! nat i) = nat (nd T)"
       "length (rese s ! nat i) = nat (nd T)" "nat i < length (resr s)" "nat i < length (resm s)"
       "nat i < length (rese s)"
    using assms by (auto simp: shaped_def dest: has_shape_nth)
  have l: "int (length (map g (range_py 0 (int q)) @ drop q old)) = nd T"
    if "length old = nat (nd T)" for g :: "int \<Rightarrow> real" and old :: vec
    using that Suc.prems by auto
  have sh: "shaped T ?s'"
    using assms(1) len
    apply (simp add: shaped_def)
    apply (intro conjI has_shape_update l)
    apply simp_all
    done
  have "for_each (range_py 0 (int (Suc q))) (volume_mode T fr fm fe i) s =
        volume_mode T fr fm fe i (int q) ?s'"
    using Suc by (simp add: range_py_0_Suc for_each_append)
  also have "\<dots> = Inr (s\<lparr>resr := (resr s)[nat i := map (volume_entry T fr) (range_py 0 (int (Suc q))) @ drop (Suc q) (resr s ! nat i)],
           resm := (resm s)[nat i := map (volume_entry T fm) (range_py 0 (int (Suc q))) @ drop (Suc q) (resm s ! nat i)],
           rese := (rese s)[nat i := map (volume_entry T fe) (range_py 0 (int (Suc q))) @ drop (Suc q) (rese s ! nat i)]\<rparr>)"
  proof -
    have jq: "0 \<le> int q" "int q < nd T" using Suc.prems by auto
    show ?thesis
      using Suc.prems len
      by (simp add: volume_mode_ok[OF sh assms(2,3,4) jq] prefix_update range_py_0_Suc)
  qed
  finally show ?case .
qed

lemma project_mode_ok:
  assumes "shaped T s" "tables_ok T" "0 \<le> i" "i < nc T" "0 \<le> j" "j < nd T"
  shows "project_mode T fr fm fe i j s =
    Inr (s\<lparr>rho1 := (rho1 s)[nat i := (rho1 s ! nat i)[nat j := project_entry T fr j]],
           mom1 := (mom1 s)[nat i := (mom1 s ! nat i)[nat j := project_entry T fm j]],
           ene1 := (ene1 s)[nat i := (ene1 s ! nat i)[nat j := project_entry T fe j]]\<rparr>)"
proof -
  have g: "col (Vf T) j = Inr (map (\<lambda>r. r ! nat j) (Vf T))"
    using assms by (intro col_shape[where m = "nd T"]) (auto simp: tables_ok_def has_shape_def)
  show ?thesis
    using assms
    by (simp add: project_mode_def g shaped_def set2_shape[where n = "nc T" and m = "nd T"] project_entry_def)
qed

lemma project_modes_prefix:
  assumes "shaped T s" "tables_ok T" "0 \<le> i" "i < nc T"
  shows "q \<le> nat (nd T) \<Longrightarrow>
    for_each (range_py 0 (int q)) (project_mode T fr fm fe i) s =
    Inr (s\<lparr>rho1 := (rho1 s)[nat i := map (project_entry T fr) (range_py 0 (int q)) @ drop q (rho1 s ! nat i)],
           mom1 := (mom1 s)[nat i := map (project_entry T fm) (range_py 0 (int q)) @ drop q (mom1 s ! nat i)],
           ene1 := (ene1 s)[nat i := map (project_entry T fe) (range_py 0 (int q)) @ drop q (ene1 s ! nat i)]\<rparr>)"
proof (induction q)
  case 0
  then show ?case by simp
next
  case (Suc q)
  let ?s' = "s\<lparr>rho1 := (rho1 s)[nat i := map (project_entry T fr) (range_py 0 (int q)) @ drop q (rho1 s ! nat i)],
           mom1 := (mom1 s)[nat i := map (project_entry T fm) (range_py 0 (int q)) @ drop q (mom1 s ! nat i)],
           ene1 := (ene1 s)[nat i := map (project_entry T fe) (range_py 0 (int q)) @ drop q (ene1 s ! nat i)]\<rparr>"
  have len: "length (rho1 s ! nat i) = nat (nd T)" "length (mom1 s ! nat i) = nat (nd T)"
       "length (ene1 s ! nat i) = nat (nd T)" "nat i < length (rho1 s)" "nat i < length (mom1 s)"
       "nat i < length (ene1 s)"
    using assms by (auto simp: shaped_def dest: has_shape_nth)
  have l: "int (length (map g (range_py 0 (int q)) @ drop q old)) = nd T"
    if "length old = nat (nd T)" for g :: "int \<Rightarrow> real" and old :: vec
    using that Suc.prems by auto
  have sh: "shaped T ?s'"
    using assms(1) len
    apply (simp add: shaped_def)
    apply (intro conjI has_shape_update l)
    apply simp_all
    done
  have jq: "0 \<le> int q" "int q < nd T" using Suc.prems by auto
  have "for_each (range_py 0 (int (Suc q))) (project_mode T fr fm fe i) s =
        project_mode T fr fm fe i (int q) ?s'"
    using Suc by (simp add: range_py_0_Suc for_each_append)
  also have "\<dots> = Inr (s\<lparr>rho1 := (rho1 s)[nat i := map (project_entry T fr) (range_py 0 (int (Suc q))) @ drop (Suc q) (rho1 s ! nat i)],
           mom1 := (mom1 s)[nat i := map (project_entry T fm) (range_py 0 (int (Suc q))) @ drop (Suc q) (mom1 s ! nat i)],
           ene1 := (ene1 s)[nat i := map (project_entry T fe) (range_py 0 (int (Suc q))) @ drop (Suc q) (ene1 s ! nat i)]\<rparr>)"
    using Suc.prems len
    by (simp add: project_mode_ok[OF sh assms(2,3,4) jq] prefix_update range_py_0_Suc)
  finally show ?case .
qed

lemma volume_modes_all:
  assumes "shaped T s" "tables_ok T" "0 \<le> i" "i < nc T"
  shows "for_each (range_py 0 (nd T)) (volume_mode T fr fm fe i) s =
    Inr (s\<lparr>resr := (resr s)[nat i := map (volume_entry T fr) (range_py 0 (nd T))],
           resm := (resm s)[nat i := map (volume_entry T fm) (range_py 0 (nd T))],
           rese := (rese s)[nat i := map (volume_entry T fe) (range_py 0 (nd T))]\<rparr>)"
proof -
  have nn: "0 \<le> nd T" using assms(2) by (simp add: tables_ok_def)
  have len: "length (resr s ! nat i) = nat (nd T)" "length (resm s ! nat i) = nat (nd T)"
       "length (rese s ! nat i) = nat (nd T)"
    using assms by (auto simp: shaped_def dest: has_shape_nth)
  show ?thesis
    using volume_modes_prefix[OF assms, of "nat (nd T)" fr fm fe] len by (simp add: nn)
qed

lemma project_modes_all:
  assumes "shaped T s" "tables_ok T" "0 \<le> i" "i < nc T"
  shows "for_each (range_py 0 (nd T)) (project_mode T fr fm fe i) s =
    Inr (s\<lparr>rho1 := (rho1 s)[nat i := map (project_entry T fr) (range_py 0 (nd T))],
           mom1 := (mom1 s)[nat i := map (project_entry T fm) (range_py 0 (nd T))],
           ene1 := (ene1 s)[nat i := map (project_entry T fe) (range_py 0 (nd T))]\<rparr>)"
proof -
  have nn: "0 \<le> nd T" using assms(2) by (simp add: tables_ok_def)
  have len: "length (rho1 s ! nat i) = nat (nd T)" "length (mom1 s ! nat i) = nat (nd T)"
       "length (ene1 s ! nat i) = nat (nd T)"
    using assms by (auto simp: shaped_def dest: has_shape_nth)
  show ?thesis
    using project_modes_prefix[OF assms, of "nat (nd T)" fr fm fe] len by (simp add: nn)
qed

lemma has_shape_prefix:
  assumes "has_shape n m A" "p \<le> nat n" "0 \<le> m" "\<And>i. length (R i) = nat m"
  shows "has_shape n m (map R (range_py 0 (int p)) @ drop p A)"
  using assms by (auto simp: has_shape_def list_all_iff dest: in_set_dropD)

lemma prefix_update_gen:
  "q < length old \<Longrightarrow> length xs = q \<Longrightarrow> (xs @ drop q old)[q := v] = xs @ v # drop (Suc q) old"
  by (simp add: list_update_append Cons_nth_drop_Suc [symmetric])

lemma volume_cell_ok:
  assumes "shaped T s" "tables_ok T" "0 \<le> i" "i < nc T"
  shows "volume_cell c T i s =
    Inr (s\<lparr>resr := (resr s)[nat i := map (volume_entry T (fst (cell_flux c T s i))) (range_py 0 (nd T))],
           resm := (resm s)[nat i := map (volume_entry T (fst (snd (cell_flux c T s i)))) (range_py 0 (nd T))],
           rese := (rese s)[nat i := map (volume_entry T (snd (snd (cell_flux c T s i)))) (range_py 0 (nd T))]\<rparr>)"
proof -
  have r: "row (rho1 s) i = Inr (rho1 s ! nat i)" "row (mom1 s) i = Inr (mom1 s ! nat i)"
          "row (ene1 s) i = Inr (ene1 s ! nat i)"
    using assms by (auto simp: shaped_def has_shape_def intro!: row_nonneg)
  show ?thesis
    by (simp add: volume_cell_def r Let_def case_prod_beta volume_modes_all[OF assms] cell_flux_def)
qed

lemma volume_cells_prefix:
  assumes "shaped T s" "tables_ok T"
  shows "p \<le> nat (nc T) \<Longrightarrow>
    for_each (range_py 0 (int p)) (volume_cell c T) s =
    Inr (s\<lparr>resr := volume_rows T (\<lambda>i. fst (cell_flux c T s i)) (int p) @ drop p (resr s),
           resm := volume_rows T (\<lambda>i. fst (snd (cell_flux c T s i))) (int p) @ drop p (resm s),
           rese := volume_rows T (\<lambda>i. snd (snd (cell_flux c T s i))) (int p) @ drop p (rese s)\<rparr>)"
proof (induction p)
  case 0
  then show ?case by (simp add: volume_rows_def)
next
  case (Suc p)
  let ?s' = "s\<lparr>resr := volume_rows T (\<lambda>i. fst (cell_flux c T s i)) (int p) @ drop p (resr s),
           resm := volume_rows T (\<lambda>i. fst (snd (cell_flux c T s i))) (int p) @ drop p (resm s),
           rese := volume_rows T (\<lambda>i. snd (snd (cell_flux c T s i))) (int p) @ drop p (rese s)\<rparr>"
  have nd0: "0 \<le> nd T" using assms(2) by (simp add: tables_ok_def)
  have len: "length (resr s) = nat (nc T)" "length (resm s) = nat (nc T)" "length (rese s) = nat (nc T)"
    using assms(1) by (auto simp: shaped_def has_shape_def)
  have sh: "shaped T ?s'"
    using assms(1) Suc.prems nd0
    by (simp add: shaped_def volume_rows_def has_shape_prefix)
  have ip: "0 \<le> int p" "int p < nc T" using Suc.prems by auto
  have cf: "cell_flux c T (s\<lparr>resr := A, resm := B, rese := C\<rparr>) = cell_flux c T s" for A B C
    by (rule ext) (simp add: cell_flux_def)
  have "for_each (range_py 0 (int (Suc p))) (volume_cell c T) s = volume_cell c T (int p) ?s'"
    using Suc by (simp add: range_py_0_Suc for_each_append)
  also have "\<dots> = Inr (s\<lparr>resr := volume_rows T (\<lambda>i. fst (cell_flux c T s i)) (int (Suc p)) @ drop (Suc p) (resr s),
           resm := volume_rows T (\<lambda>i. fst (snd (cell_flux c T s i))) (int (Suc p)) @ drop (Suc p) (resm s),
           rese := volume_rows T (\<lambda>i. snd (snd (cell_flux c T s i))) (int (Suc p)) @ drop (Suc p) (rese s)\<rparr>)"
    unfolding volume_cell_ok[OF sh assms(2) ip]
    using Suc.prems len
    by (simp add: cf volume_rows_def prefix_update_gen range_py_0_Suc)
  finally show ?case .
qed

lemma volume_loop_ok:
  assumes "shaped T s" "tables_ok T"
  shows "volume_loop c T s =
    Inr (s\<lparr>resr := volume_rows T (\<lambda>i. fst (cell_flux c T s i)) (nc T),
           resm := volume_rows T (\<lambda>i. fst (snd (cell_flux c T s i))) (nc T),
           rese := volume_rows T (\<lambda>i. snd (snd (cell_flux c T s i))) (nc T)\<rparr>)"
proof -
  have nn: "0 \<le> nc T" using assms(2) by (simp add: tables_ok_def)
  have len: "length (resr s) = nat (nc T)" "length (resm s) = nat (nc T)" "length (rese s) = nat (nc T)"
    using assms(1) by (auto simp: shaped_def has_shape_def)
  show ?thesis
    using volume_cells_prefix[OF assms, of "nat (nc T)" c] len by (simp add: nn volume_loop_def)
qed

lemma project_cell_ok:
  assumes "shaped T s" "tables_ok T" "0 \<le> i" "i < nc T"
  shows "project_cell c T i s =
    Inr (s\<lparr>rho1 := (rho1 s)[nat i := map (project_entry T (fst (cell_ic c T i))) (range_py 0 (nd T))],
           mom1 := (mom1 s)[nat i := map (project_entry T (fst (snd (cell_ic c T i)))) (range_py 0 (nd T))],
           ene1 := (ene1 s)[nat i := map (project_entry T (snd (snd (cell_ic c T i)))) (range_py 0 (nd T))]\<rparr>)"
  by (simp add: project_cell_def Let_def case_prod_beta project_modes_all[OF assms] cell_ic_def
      cell_points_def)

lemma project_cells_prefix:
  assumes "shaped T s" "tables_ok T"
  shows "p \<le> nat (nc T) \<Longrightarrow>
    for_each (range_py 0 (int p)) (project_cell c T) s =
    Inr (s\<lparr>rho1 := project_rows T (\<lambda>i. fst (cell_ic c T i)) (int p) @ drop p (rho1 s),
           mom1 := project_rows T (\<lambda>i. fst (snd (cell_ic c T i))) (int p) @ drop p (mom1 s),
           ene1 := project_rows T (\<lambda>i. snd (snd (cell_ic c T i))) (int p) @ drop p (ene1 s)\<rparr>)"
proof (induction p)
  case 0
  then show ?case by (simp add: project_rows_def)
next
  case (Suc p)
  let ?s' = "s\<lparr>rho1 := project_rows T (\<lambda>i. fst (cell_ic c T i)) (int p) @ drop p (rho1 s),
           mom1 := project_rows T (\<lambda>i. fst (snd (cell_ic c T i))) (int p) @ drop p (mom1 s),
           ene1 := project_rows T (\<lambda>i. snd (snd (cell_ic c T i))) (int p) @ drop p (ene1 s)\<rparr>"
  have nd0: "0 \<le> nd T" using assms(2) by (simp add: tables_ok_def)
  have len: "length (rho1 s) = nat (nc T)" "length (mom1 s) = nat (nc T)" "length (ene1 s) = nat (nc T)"
    using assms(1) by (auto simp: shaped_def has_shape_def)
  have sh: "shaped T ?s'"
    using assms(1) Suc.prems nd0
    by (simp add: shaped_def project_rows_def has_shape_prefix)
  have ip: "0 \<le> int p" "int p < nc T" using Suc.prems by auto
  have "for_each (range_py 0 (int (Suc p))) (project_cell c T) s = project_cell c T (int p) ?s'"
    using Suc by (simp add: range_py_0_Suc for_each_append)
  also have "\<dots> = Inr (s\<lparr>rho1 := project_rows T (\<lambda>i. fst (cell_ic c T i)) (int (Suc p)) @ drop (Suc p) (rho1 s),
           mom1 := project_rows T (\<lambda>i. fst (snd (cell_ic c T i))) (int (Suc p)) @ drop (Suc p) (mom1 s),
           ene1 := project_rows T (\<lambda>i. snd (snd (cell_ic c T i))) (int (Suc p)) @ drop (Suc p) (ene1 s)\<rparr>)"
    unfolding project_cell_ok[OF sh assms(2) ip]
    using Suc.prems len
    by (simp add: project_rows_def prefix_update_gen range_py_0_Suc)
  finally show ?case .
qed

lemma project_ok:
  assumes "shaped T s" "tables_ok T"
  shows "project c T s =
    Inr (s\<lparr>rho1 := project_rows T (\<lambda>i. fst (cell_ic c T i)) (nc T),
           mom1 := project_rows T (\<lambda>i. fst (snd (cell_ic c T i))) (nc T),
           ene1 := project_rows T (\<lambda>i. snd (snd (cell_ic c T i))) (nc T)\<rparr>)"
proof -
  have nn: "0 \<le> nc T" using assms(2) by (simp add: tables_ok_def)
  have len: "length (rho1 s) = nat (nc T)" "length (mom1 s) = nat (nc T)" "length (ene1 s) = nat (nc T)"
    using assms(1) by (auto simp: shaped_def has_shape_def)
  show ?thesis
    using project_cells_prefix[OF assms, of "nat (nc T)" c] len by (simp add: nn project_def)
qed

lemma has_shape_rows:
  "0 \<le> n \<Longrightarrow> 0 \<le> m \<Longrightarrow> (\<And>i. length (R i) = nat m) \<Longrightarrow> has_shape n m (map R (range_py 0 n))"
  by (auto simp: has_shape_def list_all_iff)

lemma volume_loop_shaped:
  assumes "shaped T s" "tables_ok T"
  shows "shaped T (s\<lparr>resr := volume_rows T f1 (nc T), resm := volume_rows T f2 (nc T),
                      rese := volume_rows T f3 (nc T)\<rparr>)"
  using assms by (simp add: shaped_def volume_rows_def tables_ok_def has_shape_rows)

lemma project_shaped:
  assumes "shaped T s" "tables_ok T"
  shows "shaped T (s\<lparr>rho1 := project_rows T f1 (nc T), mom1 := project_rows T f2 (nc T),
                      ene1 := project_rows T f3 (nc T)\<rparr>)"
  using assms by (simp add: shaped_def project_rows_def tables_ok_def has_shape_rows)

lemma res_frame_refl [simp]: "res_frame s s"
  by (simp add: res_frame_def)

lemma res_frame_trans: "res_frame s s' \<Longrightarrow> res_frame s' s'' \<Longrightarrow> res_frame s s''"
  by (simp add: res_frame_def)

lemma res_frame_upd [simp]: "res_frame s (s\<lparr>resr := A, resm := B, rese := C\<rparr>)"
  by (simp add: res_frame_def)

lemma for_each_inv:
  assumes "I s" "\<And>i s. i \<in> set xs \<Longrightarrow> I s \<Longrightarrow> \<exists>s'. body i s = Inr s' \<and> I s'"
  shows "\<exists>s'. for_each xs body s = Inr s' \<and> I s'"
  using assms
proof (induction xs arbitrary: s)
  case Nil
  then show ?case by simp
next
  case (Cons x xs)
  from Cons.prems obtain s1 where s1: "body x s = Inr s1" "I s1" by (meson list.set_intros(1))
  have "\<exists>s'. for_each xs body s1 = Inr s' \<and> I s'"
    using Cons.prems(2) s1(2) by (intro Cons.IH) auto
  then show ?case using s1 by simp
qed

lemma tables_ok_Vu:
  assumes "tables_ok T"
  shows "length (Vu T) = nat (nu T)" "2 \<le> nu T" "Vu T \<noteq> []" "length (Vu T ! 0) = nat (nd T)"
        "length (Vu T ! (nat (nu T) - 1)) = nat (nd T)" "0 \<le> nd T" "1 \<le> nc T"
proof -
  have sh: "has_shape (nu T) (nd T) (Vu T)" and nu2: "2 \<le> nu T"
    using assms by (auto simp: tables_ok_def)
  show "2 \<le> nu T" by (rule nu2)
  show len: "length (Vu T) = nat (nu T)" using sh by (auto simp: has_shape_def)
  then show "Vu T \<noteq> []" using nu2 by auto
  show "length (Vu T ! 0) = nat (nd T)"
    using has_shape_nth[OF sh, of 0] nu2 by simp
  have "nat (nu T - 1) = nat (nu T) - 1" using nu2 by simp
  then show "length (Vu T ! (nat (nu T) - 1)) = nat (nd T)"
    using has_shape_nth[OF sh, of "nu T - 1"] nu2 by simp
  show "0 \<le> nd T" "1 \<le> nc T" using assms by (auto simp: tables_ok_def)
qed

lemma shaped_len:
  assumes "shaped T s"
  shows "length (rho1 s) = nat (nc T)" "length (mom1 s) = nat (nc T)" "length (ene1 s) = nat (nc T)"
        "length (resr s) = nat (nc T)" "length (resm s) = nat (nc T)" "length (rese s) = nat (nc T)"
        "length (rho0 s) = nat (nc T)" "length (mom0 s) = nat (nc T)" "length (ene0 s) = nat (nc T)"
  using assms by (auto simp: shaped_def has_shape_def)

lemma first_face_ok:
  assumes "shaped T s" "tables_ok T"
  shows "first_face c T s =
    Inr (s\<lparr>resr := (resr s)[0 := map2 (-) (resr s ! 0) (scal (fst (first_flux c T s)) (Vu T ! 0))],
           resm := (resm s)[0 := map2 (-) (resm s ! 0) (scal (fst (snd (first_flux c T s))) (Vu T ! 0))],
           rese := (rese s)[0 := map2 (-) (rese s ! 0) (scal (snd (snd (first_flux c T s))) (Vu T ! 0))]\<rparr>)"
  using tables_ok_Vu[OF assms(2)] shaped_len[OF assms(1)]
  by (simp add: first_face_def edge_value_def row_nonneg sub_scaled_def py_index_nonneg
      case_prod_beta first_flux_def edge_state_def)

lemma edge_value_ok:
  "0 \<le> i \<Longrightarrow> i < int (length A) \<Longrightarrow> 0 \<le> r \<Longrightarrow> r < int (length V) \<Longrightarrow>
   edge_value A i V r = Inr (dot (A ! nat i) (V ! nat r))"
  by (simp add: edge_value_def row_nonneg)

lemma edge_value_last:
  "0 \<le> i \<Longrightarrow> i < int (length A) \<Longrightarrow> V \<noteq> [] \<Longrightarrow>
   edge_value A i V (- 1) = Inr (dot (A ! nat i) (V ! (length V - 1)))"
  by (simp add: edge_value_def row_nonneg row_last)

lemma add_scaled_ok:
  "0 \<le> i \<Longrightarrow> i < int (length A) \<Longrightarrow> 0 \<le> r \<Longrightarrow> r < int (length V) \<Longrightarrow>
   add_scaled A i x V r = Inr (A[nat i := map2 (+) (A ! nat i) (scal x (V ! nat r))])"
  by (simp add: add_scaled_def row_nonneg py_index_nonneg)

lemma add_scaled_last:
  "0 \<le> i \<Longrightarrow> i < int (length A) \<Longrightarrow> V \<noteq> [] \<Longrightarrow>
   add_scaled A i x V (- 1) = Inr (A[nat i := map2 (+) (A ! nat i) (scal x (V ! (length V - 1)))])"
  by (simp add: add_scaled_def row_last py_index_nonneg)

lemma sub_scaled_ok:
  "0 \<le> i \<Longrightarrow> i < int (length A) \<Longrightarrow> 0 \<le> r \<Longrightarrow> r < int (length V) \<Longrightarrow>
   sub_scaled A i x V r = Inr (A[nat i := map2 (-) (A ! nat i) (scal x (V ! nat r))])"
  by (simp add: sub_scaled_def row_nonneg py_index_nonneg)

lemma edge_value_neg:
  "A \<noteq> [] \<Longrightarrow> 0 \<le> r \<Longrightarrow> r < int (length V) \<Longrightarrow>
   edge_value A (- 1) V r = Inr (dot (A ! (length A - 1)) (V ! nat r))"
  by (simp add: edge_value_def row_nonneg row_last)

lemma add_scaled_neg:
  "A \<noteq> [] \<Longrightarrow> 0 \<le> r \<Longrightarrow> r < int (length V) \<Longrightarrow>
   add_scaled A (- 1) x V r = Inr (A[length A - 1 := map2 (+) (A ! (length A - 1)) (scal x (V ! nat r))])"
  by (simp add: add_scaled_def row_nonneg py_index_last)

lemma last_face_ok:
  assumes "shaped T s" "tables_ok T"
  shows "last_face c T s =
    Inr (s\<lparr>resr := (resr s)[nat (nc T) - 1 := map2 (+) (resr s ! (nat (nc T) - 1)) (scal (fst (last_flux c T s)) (Vu T ! 0))],
           resm := (resm s)[nat (nc T) - 1 := map2 (+) (resm s ! (nat (nc T) - 1)) (scal (fst (snd (last_flux c T s))) (Vu T ! 0))],
           rese := (rese s)[nat (nc T) - 1 := map2 (+) (rese s ! (nat (nc T) - 1)) (scal (snd (snd (last_flux c T s))) (Vu T ! 0))]\<rparr>)"
proof -
  note V = tables_ok_Vu[OF assms(2)]
  note L = shaped_len[OF assms(1)]
  have v0: "(0::int) \<le> 0" "0 < int (length (Vu T))" using V by auto
  have ne: "A \<noteq> []" if "length A = nat (nc T)" for A :: mat
    using that V(7) by auto
  have ev: "edge_value A (- 1) (Vu T) 0 = Inr (dot (A ! (nat (nc T) - 1)) (Vu T ! 0))"
    if "length A = nat (nc T)" for A :: mat
    using edge_value_neg[OF ne[OF that] v0] that by simp
  have ad: "add_scaled A (- 1) x (Vu T) 0 =
      Inr (A[nat (nc T) - 1 := map2 (+) (A ! (nat (nc T) - 1)) (scal x (Vu T ! 0))])"
    if "length A = nat (nc T)" for A :: mat and x
    using add_scaled_neg[OF ne[OF that] v0, of x] that by simp
  show ?thesis
    unfolding last_face_def ev[OF L(1)] ev[OF L(2)] ev[OF L(3)]
    by (simp add: case_prod_beta last_flux_def edge_state_def ad L del: One_nat_def)
qed

lemma interior_face_ok:
  assumes "shaped T s" "tables_ok T" "1 \<le> i" "i < nc T"
  shows "interior_face c T i s =
    Inr (s\<lparr>resr := (resr s)[nat (i - 1) := map2 (+) (resr s ! nat (i - 1)) (scal (fst (interior_flux c T s i)) (Vu T ! (nat (nu T) - 1))),
                            nat i := map2 (-) (resr s ! nat i) (scal (fst (interior_flux c T s i)) (Vu T ! 0))],
           resm := (resm s)[nat (i - 1) := map2 (+) (resm s ! nat (i - 1)) (scal (fst (snd (interior_flux c T s i))) (Vu T ! (nat (nu T) - 1))),
                            nat i := map2 (-) (resm s ! nat i) (scal (fst (snd (interior_flux c T s i))) (Vu T ! 0))],
           rese := (rese s)[nat (i - 1) := map2 (+) (rese s ! nat (i - 1)) (scal (snd (snd (interior_flux c T s i))) (Vu T ! (nat (nu T) - 1))),
                            nat i := map2 (-) (rese s ! nat i) (scal (snd (snd (interior_flux c T s i))) (Vu T ! 0))]\<rparr>)"
proof -
  note V = tables_ok_Vu[OF assms(2)]
  note L = shaped_len[OF assms(1)]
  have ix: "nat (i - 1) \<noteq> nat i" "0 \<le> i - 1" "0 \<le> i"
    using assms(3,4) by auto
  have lt: "i - 1 < int (length A)" "i < int (length A)" if "length A = nat (nc T)" for A :: mat
    using that assms(3,4) by auto
  have v0: "(0::int) \<le> 0" "0 < int (length (Vu T))" using V by auto
  have ev:
    "edge_value (rho1 s) (i - 1) (Vu T) (- 1) = Inr (dot (rho1 s ! nat (i - 1)) (Vu T ! (nat (nu T) - 1)))"
    "edge_value (mom1 s) (i - 1) (Vu T) (- 1) = Inr (dot (mom1 s ! nat (i - 1)) (Vu T ! (nat (nu T) - 1)))"
    "edge_value (ene1 s) (i - 1) (Vu T) (- 1) = Inr (dot (ene1 s ! nat (i - 1)) (Vu T ! (nat (nu T) - 1)))"
    "edge_value (rho1 s) i (Vu T) 0 = Inr (dot (rho1 s ! nat i) (Vu T ! 0))"
    "edge_value (mom1 s) i (Vu T) 0 = Inr (dot (mom1 s ! nat i) (Vu T ! 0))"
    "edge_value (ene1 s) i (Vu T) 0 = Inr (dot (ene1 s ! nat i) (Vu T ! 0))"
    using edge_value_last[OF ix(2) lt(1)[OF L(1)] V(3)] edge_value_last[OF ix(2) lt(1)[OF L(2)] V(3)]
      edge_value_last[OF ix(2) lt(1)[OF L(3)] V(3)]
      edge_value_ok[OF ix(3) lt(2)[OF L(1)] v0] edge_value_ok[OF ix(3) lt(2)[OF L(2)] v0]
      edge_value_ok[OF ix(3) lt(2)[OF L(3)] v0] V(1)
    by simp_all
  have a: "add_scaled A (i - 1) x (Vu T) (- 1) =
      Inr (A[nat (i - 1) := map2 (+) (A ! nat (i - 1)) (scal x (Vu T ! (nat (nu T) - 1)))])"
    if "length A = nat (nc T)" for A :: mat and x
    using add_scaled_last[OF ix(2) lt(1)[OF that] V(3)] V(1) by simp
  have b: "sub_scaled (A[nat (i - 1) := r]) i x (Vu T) 0 =
      Inr (A[nat (i - 1) := r, nat i := map2 (-) (A ! nat i) (scal x (Vu T ! 0))])"
    if "length A = nat (nc T)" for A :: mat and x r
    using sub_scaled_ok[of i "A[nat (i - 1) := r]" 0 "Vu T" x] lt(2)[OF that] ix v0
    by (simp add: nth_list_update_neq)
  show ?thesis
    unfolding interior_face_def ev
    by (simp add: case_prod_beta interior_flux_def edge_state_def a b L)
qed

lemma has_shape_map2:
  "has_shape n m A \<Longrightarrow> has_shape n m B \<Longrightarrow> has_shape n m (map2 (map2 f) A B)"
  by (auto simp: has_shape_def list_all_length)

lemma has_shape_scal: "has_shape n m A \<Longrightarrow> has_shape n m (map (scal x) A)"
  by (auto simp: has_shape_def list_all_length scal_def)

lemma has_shape_rk_combine:
  "has_shape n m U0 \<Longrightarrow> has_shape n m U1 \<Longrightarrow> has_shape n m R \<Longrightarrow>
   has_shape n m (rk_combine a b l U0 U1 R)"
  unfolding rk_combine_def by (intro has_shape_map2 has_shape_scal)

lemma has_shape_update_row:
  assumes "has_shape n m A" "length v = nat m" "p < length A"
  shows "has_shape n m (A[p := map2 f (A ! p) (scal x v)])"
proof -
  have "int (length (A ! p)) = m" using assms(1,3) by (auto simp: has_shape_def list_all_length)
  then have "int (length (map2 f (A ! p) (scal x v))) = m" using assms(2) by (auto simp: scal_def)
  then show ?thesis using assms(1) by (rule has_shape_update[rotated])
qed

lemma first_face_shaped:
  assumes "shaped T s" "tables_ok T"
  shows "\<exists>s'. first_face c T s = Inr s' \<and> shaped T s' \<and> res_frame s s'"
proof -
  note V = tables_ok_Vu[OF assms(2)]
  note L = shaped_len[OF assms(1)]
  have u: "has_shape (nc T) (nd T) (A[0 := map2 (-) (A ! 0) (scal x (Vu T ! 0))])"
    if "has_shape (nc T) (nd T) A" for A x
    using that V by (intro has_shape_update_row) (auto simp: has_shape_def)
  show ?thesis
    unfolding first_face_ok[OF assms]
    using assms(1) by (simp add: shaped_def u del: One_nat_def)
qed

lemma last_face_shaped:
  assumes "shaped T s" "tables_ok T"
  shows "\<exists>s'. last_face c T s = Inr s' \<and> shaped T s' \<and> res_frame s s'"
proof -
  note V = tables_ok_Vu[OF assms(2)]
  note L = shaped_len[OF assms(1)]
  have u: "has_shape (nc T) (nd T)
      (A[nat (nc T) - 1 := map2 (+) (A ! (nat (nc T) - 1)) (scal x (Vu T ! 0))])"
    if "has_shape (nc T) (nd T) A" for A x
    using that V by (intro has_shape_update_row) (auto simp: has_shape_def)
  show ?thesis
    unfolding last_face_ok[OF assms]
    using assms(1) by (simp add: shaped_def u del: One_nat_def)
qed

lemma has_shape_update_two:
  assumes "has_shape n m A" "length v = nat m" "length w = nat m" "p < length A" "q < length A"
  shows "has_shape n m (A[p := map2 f (A ! p) (scal x v), q := map2 g (A ! q) (scal y w)])"
proof -
  have "int (length (A ! q)) = m" using assms(1,5) by (auto simp: has_shape_def list_all_length)
  then have "int (length (map2 g (A ! q) (scal y w))) = m" using assms(3) by (auto simp: scal_def)
  then show ?thesis
    using has_shape_update_row[OF assms(1,2,4), of f x] by (rule has_shape_update[rotated])
qed

lemma interior_face_shaped:
  assumes "shaped T s" "tables_ok T" "1 \<le> i" "i < nc T"
  shows "\<exists>s'. interior_face c T i s = Inr s' \<and> shaped T s' \<and> res_frame s s'"
proof -
  note V = tables_ok_Vu[OF assms(2)]
  note L = shaped_len[OF assms(1)]
  have u: "has_shape (nc T) (nd T)
      (A[nat (i - 1) := map2 (+) (A ! nat (i - 1)) (scal x (Vu T ! (nat (nu T) - 1))),
         nat i := map2 (-) (A ! nat i) (scal y (Vu T ! 0))])"
    if "has_shape (nc T) (nd T) A" for A x y
    using that V assms(3,4) by (intro has_shape_update_two) (auto simp: has_shape_def)
  show ?thesis
    unfolding interior_face_ok[OF assms]
    using assms(1) by (simp add: shaped_def u del: One_nat_def)
qed

lemma interior_faces_shaped:
  assumes "shaped T s" "tables_ok T"
  shows "\<exists>s'. interior_faces c T s = Inr s' \<and> shaped T s' \<and> res_frame s s'"
  unfolding interior_faces_def
proof (rule for_each_inv[where I = "\<lambda>s'. shaped T s' \<and> res_frame s s'"], goal_cases)
  case 1
  then show ?case using assms by simp
next
  case (2 i s1)
  then have "1 \<le> i" "i < nc T" by auto
  from interior_face_shaped[OF _ assms(2) this, of s1 c] 2
  show ?case by (auto intro: res_frame_trans)
qed

lemma volume_loop_shaped':
  assumes "shaped T s" "tables_ok T"
  shows "\<exists>s'. volume_loop c T s = Inr s' \<and> shaped T s' \<and> res_frame s s'"
  unfolding volume_loop_ok[OF assms] using volume_loop_shaped[OF assms] by simp

lemma residual_total:
  assumes "shaped T s" "tables_ok T"
  shows "\<exists>s'. residual c T s = Inr s' \<and> shaped T s' \<and> res_frame s s'"
proof -
  from volume_loop_shaped'[OF assms] obtain s1 where
    s1: "volume_loop c T s = Inr s1" "shaped T s1" "res_frame s s1" by blast
  from first_face_shaped[OF s1(2) assms(2)] obtain s2 where
    s2: "first_face c T s1 = Inr s2" "shaped T s2" "res_frame s1 s2" by blast
  from interior_faces_shaped[OF s2(2) assms(2)] obtain s3 where
    s3: "interior_faces c T s2 = Inr s3" "shaped T s3" "res_frame s2 s3" by blast
  from last_face_shaped[OF s3(2) assms(2)] obtain s4 where
    s4: "last_face c T s3 = Inr s4" "shaped T s4" "res_frame s3 s4" by blast
  have "res_frame s s4"
    using s1(3) s2(3) s3(3) s4(3) by (blast intro: res_frame_trans)
  then show ?thesis
    using s1(1) s2(1) s3(1) s4(1,2) by (simp add: residual_def)
qed

lemma range_py_0_3: "range_py 0 3 = [0, 1, 2]"
  by (simp add: range_py_def upt_rec numeral_3_eq_3)

lemma ark_brk_nth:
  "ark ! 0 = 0" "ark ! 1 = 3 / 4" "ark ! 2 = 1 / 3"
  "brk ! 0 = 1" "brk ! 1 = 1 / 4" "brk ! 2 = 2 / 3"
  "length ark = 3" "length brk = 3"
  by (simp_all add: ark_def brk_def)

lemma rk_update_ok:
  assumes "0 \<le> rk" "rk < 3"
  shows "rk_update rk s =
     Inr (s\<lparr>rho1 := rk_combine (ark ! nat rk) (brk ! nat rk) (lam s) (rho0 s) (rho1 s) (resr s),
            mom1 := rk_combine (ark ! nat rk) (brk ! nat rk) (lam s) (mom0 s) (mom1 s) (resm s),
            ene1 := rk_combine (ark ! nat rk) (brk ! nat rk) (lam s) (ene0 s) (ene1 s) (rese s)\<rparr>)"
  using assms by (simp add: rk_update_def row_nonneg ark_brk_nth)

lemma rk_update_shaped:
  assumes "shaped T s" "0 \<le> rk" "rk < 3"
  shows "\<exists>s'. rk_update rk s = Inr s' \<and> shaped T s' \<and> stage_frame s s'"
  unfolding rk_update_ok[OF assms(2,3)]
  using assms(1) by (simp add: shaped_def has_shape_rk_combine stage_frame_def)

lemma res_frame_stage_frame: "res_frame s s' \<Longrightarrow> stage_frame s s'"
  by (simp add: res_frame_def stage_frame_def)

lemma stage_frame_trans: "stage_frame s s' \<Longrightarrow> stage_frame s' s'' \<Longrightarrow> stage_frame s s''"
  by (simp add: stage_frame_def)

lemma stage_total:
  assumes "shaped T s" "tables_ok T" "0 \<le> rk" "rk < 3"
  shows "\<exists>r s'. residual c T s = Inr r \<and> res_frame s r \<and> shaped T r \<and>
           rk_update rk r = Inr s' \<and> stage c T rk s = Inr s' \<and> shaped T s' \<and> stage_frame s s'"
proof -
  from residual_total[OF assms(1,2)] obtain r where
    r: "residual c T s = Inr r" "shaped T r" "res_frame s r" by blast
  from rk_update_shaped[OF r(2) assms(3,4)] obtain s' where
    s': "rk_update rk r = Inr s'" "shaped T s'" "stage_frame r s'" by blast
  have "stage_frame s s'"
    using res_frame_stage_frame[OF r(3)] s'(3) by (rule stage_frame_trans)
  then show ?thesis using r s' by (auto simp: stage_def)
qed

lemma clip_ok:
  assumes "dx T \<noteq> 0"
  shows "clip T s = Inr (if t s + dt s > Tf T
                         then s\<lparr>dt := Tf T - t s, lam := (Tf T - t s) / dx T\<rparr> else s)"
  using assms by (simp add: clip_def fdiv_def)

lemma clip_shaped:
  assumes "dx T \<noteq> 0" "shaped T s"
  shows "\<exists>s'. clip T s = Inr s' \<and> shaped T s' \<and> res_frame (s\<lparr>dt := dt s', lam := lam s'\<rparr>) s'
     \<and> resr s' = resr s \<and> resm s' = resm s \<and> rese s' = rese s"
  unfolding clip_ok[OF assms(1)] using assms(2) by (simp add: shaped_def res_frame_def)

lemma step_chain:
  assumes "shaped T s" "tables_ok T" "dx T \<noteq> 0"
  shows "\<exists>s0 u r0 v1 r1 v2 r2 v3.
     clip T s = Inr s0 \<and> u = s0\<lparr>rho0 := rho1 s0, mom0 := mom1 s0, ene0 := ene1 s0\<rparr> \<and>
     shaped T u \<and>
     residual c T u = Inr r0 \<and> res_frame u r0 \<and> shaped T r0 \<and>
     rk_update 0 r0 = Inr v1 \<and> shaped T v1 \<and> stage_frame u v1 \<and>
     residual c T v1 = Inr r1 \<and> res_frame v1 r1 \<and> shaped T r1 \<and>
     rk_update 1 r1 = Inr v2 \<and> shaped T v2 \<and> stage_frame u v2 \<and>
     residual c T v2 = Inr r2 \<and> res_frame v2 r2 \<and> shaped T r2 \<and>
     rk_update 2 r2 = Inr v3 \<and> shaped T v3 \<and> stage_frame u v3 \<and>
     stage c T 0 u = Inr v1 \<and> stage c T 1 v1 = Inr v2 \<and> stage c T 2 v2 = Inr v3 \<and>
     step c T s = Inr (v3\<lparr>t := t v3 + dt v3, it := it v3 + 1\<rparr>)"
proof -
  from clip_shaped[OF assms(3,1)] obtain s0 where
    s0: "clip T s = Inr s0" "shaped T s0" by blast
  define u where "u = s0\<lparr>rho0 := rho1 s0, mom0 := mom1 s0, ene0 := ene1 s0\<rparr>"
  have su: "shaped T u" using s0(2) by (simp add: u_def shaped_def)
  from stage_total[OF su assms(2), of 0 c] obtain r0 v1 where
    a: "residual c T u = Inr r0" "res_frame u r0" "rk_update 0 r0 = Inr v1"
       "stage c T 0 u = Inr v1" "shaped T v1" "stage_frame u v1" "shaped T r0" by auto
  from stage_total[OF a(5) assms(2), of 1 c] obtain r1 v2 where
    b: "residual c T v1 = Inr r1" "res_frame v1 r1" "rk_update 1 r1 = Inr v2"
       "stage c T 1 v1 = Inr v2" "shaped T v2" "stage_frame v1 v2" "shaped T r1" by auto
  from stage_total[OF b(5) assms(2), of 2 c] obtain r2 v3 where
    d: "residual c T v2 = Inr r2" "res_frame v2 r2" "rk_update 2 r2 = Inr v3"
       "stage c T 2 v2 = Inr v3" "shaped T v3" "stage_frame v2 v3" "shaped T r2" by auto
  have f2: "stage_frame u v2" using a(6) b(6) by (rule stage_frame_trans)
  have f3: "stage_frame u v3" using f2 d(6) by (rule stage_frame_trans)
  have "step c T s = Inr (v3\<lparr>t := t v3 + dt v3, it := it v3 + 1\<rparr>)"
    using s0(1) a(4) b(4) d(4) by (simp add: step_def range_py_0_3 u_def[symmetric])
  then show ?thesis
    using s0(1) u_def su a b d f2 f3 by blast
qed

lemma rk_combine_nth:
  assumes "has_shape n m U0" "has_shape n m U1" "has_shape n m R" "i < nat n" "j < nat m"
  shows "rk_combine a b l U0 U1 R ! i ! j = a * U0 ! i ! j + b * (U1 ! i ! j - l * R ! i ! j)"
proof -
  have len: "length U0 = nat n" "length U1 = nat n" "length R = nat n"
    "length (U0 ! i) = nat m" "length (U1 ! i) = nat m" "length (R ! i) = nat m"
    using assms by (auto simp: has_shape_def list_all_length)
  show ?thesis
    using assms(4,5) len by (simp add: rk_combine_def scal_def)
qed

lemma has_shape_basis_table:
  "0 \<le> n \<Longrightarrow> 0 \<le> m \<Longrightarrow> has_shape n m (basis_table f pts n m)"
  by (auto simp: has_shape_def basis_table_def list_all_iff)

lemma init_tables_ok:
  assumes "0 \<le> args_degree a" "args_ncell a \<noteq> 0"
  shows "\<exists>T. init_tables c a = Inr T \<and> k T = args_degree a \<and> nc T = args_ncell a \<and>
           nd T = args_degree a + 1 \<and> nu T = max 2 (args_degree a + 1) \<and>
           cfl T = args_cfl a / real_of_int (2 * args_degree a + 1) \<and>
           dx T = (xmax c - xmin c) / real_of_int (args_ncell a) \<and> Tf T = args_Tf a \<and>
           xg T = fst (leggauss c (args_degree a + 1)) \<and> wg T = snd (leggauss c (args_degree a + 1)) \<and>
           xu T = linspace (- 1) 1 (nu T) \<and>
           Vf T = basis_table (shape_value c) (xg T) (nd T) (nd T) \<and>
           Vg T = basis_table (shape_grad c) (xg T) (nd T) (nd T) \<and>
           Vu T = basis_table (shape_value c) (xu T) (nu T) (nd T)"
  using assms by (simp add: init_tables_def Let_def case_prod_beta)

lemma init_tables_tables_ok:
  assumes "init_tables c a = Inr T" "0 < args_ncell a"
  shows "tables_ok T"
proof -
  have k0: "0 \<le> args_degree a"
    using assms(1) by (auto simp: init_tables_def Let_def case_prod_beta split: if_splits)
  from init_tables_ok[of a c] k0 assms obtain T' where
    T': "init_tables c a = Inr T'" "k T' = args_degree a" "nc T' = args_ncell a"
    "nd T' = args_degree a + 1" "nu T' = max 2 (args_degree a + 1)"
    "Vf T' = basis_table (shape_value c) (xg T') (nd T') (nd T')"
    "Vg T' = basis_table (shape_grad c) (xg T') (nd T') (nd T')"
    "Vu T' = basis_table (shape_value c) (xu T') (nu T') (nd T')"
    by auto
  have "T' = T" using assms(1) T'(1) by simp
  then show ?thesis
    using T' k0 assms(2) by (auto simp: tables_ok_def intro!: has_shape_basis_table)
qed

lemma allocate_ok:
  assumes "tables_ok T"
  shows "\<exists>s. allocate T = Inr s \<and> shaped T s \<and> it s = 0 \<and> t s = 0"
proof -
  have z: "zeros (nc T) (nd T) = Inr (replicate (nat (nc T)) (replicate (nat (nd T)) 0))"
    using assms by (simp add: zeros_def tables_ok_def)
  have "has_shape (nc T) (nd T) (replicate (nat (nc T)) (replicate (nat (nd T)) 0))"
    using assms by (auto simp: has_shape_def tables_ok_def list_all_iff)
  then show ?thesis by (simp add: allocate_def z shaped_def)
qed


section \<open>The residual arrays are overwritten\<close>

lemma volume_loop_overwrites:
  assumes "tables_ok T" "shaped T s"
    and "has_shape (nc T) (nd T) A" "has_shape (nc T) (nd T) B" "has_shape (nc T) (nd T) C"
  shows "volume_loop c T (s\<lparr>resr := A, resm := B, rese := C\<rparr>) = volume_loop c T s"
proof -
  have sh: "shaped T (s\<lparr>resr := A, resm := B, rese := C\<rparr>)"
    using assms by (simp add: shaped_def)
  have cf: "cell_flux c T (s\<lparr>resr := A, resm := B, rese := C\<rparr>) = cell_flux c T s"
    by (rule ext) (simp add: cell_flux_def)
  show ?thesis
    by (simp add: volume_loop_ok[OF sh assms(1)] volume_loop_ok[OF assms(2,1)] cf)
qed

lemma residual_overwrites:
  assumes "tables_ok T" "shaped T s"
    and "has_shape (nc T) (nd T) A" "has_shape (nc T) (nd T) B" "has_shape (nc T) (nd T) C"
  shows "residual c T (s\<lparr>resr := A, resm := B, rese := C\<rparr>) = residual c T s"
  by (simp add: residual_def volume_loop_overwrites[OF assms])

lemma stage_overwrites:
  assumes "tables_ok T" "shaped T s"
    and "has_shape (nc T) (nd T) A" "has_shape (nc T) (nd T) B" "has_shape (nc T) (nd T) C"
  shows "stage c T rk (s\<lparr>resr := A, resm := B, rese := C\<rparr>) = stage c T rk s"
  by (simp add: stage_def residual_overwrites[OF assms])

lemma step_overwrites:
  assumes "tables_ok T" "shaped T s" "dx T \<noteq> 0"
    and "has_shape (nc T) (nd T) A" "has_shape (nc T) (nd T) B" "has_shape (nc T) (nd T) C"
  shows "step c T (s\<lparr>resr := A, resm := B, rese := C\<rparr>) = step c T s"
proof (cases "t s + dt s > Tf T")
  case True
  let ?u = "s\<lparr>dt := Tf T - t s, lam := (Tf T - t s) / dx T,
              rho0 := rho1 s, mom0 := mom1 s, ene0 := ene1 s\<rparr>"
  have su: "shaped T ?u" using assms(2) by (simp add: shaped_def)
  have e: "s\<lparr>resr := A, resm := B, rese := C, dt := Tf T - t s, lam := (Tf T - t s) / dx T,
             rho0 := rho1 s, mom0 := mom1 s, ene0 := ene1 s\<rparr> = ?u\<lparr>resr := A, resm := B, rese := C\<rparr>"
    by (rule sim.equality) simp_all
  show ?thesis
    using True
    by (simp add: step_def clip_ok[OF assms(3)] e range_py_0_3
        stage_overwrites[OF assms(1) su assms(4,5,6)])
next
  case False
  let ?u = "s\<lparr>rho0 := rho1 s, mom0 := mom1 s, ene0 := ene1 s\<rparr>"
  have su: "shaped T ?u" using assms(2) by (simp add: shaped_def)
  have e: "s\<lparr>resr := A, resm := B, rese := C,
             rho0 := rho1 s, mom0 := mom1 s, ene0 := ene1 s\<rparr> = ?u\<lparr>resr := A, resm := B, rese := C\<rparr>"
    by (rule sim.equality) simp_all
  show ?thesis
    using False
    by (simp add: step_def clip_ok[OF assms(3)] e range_py_0_3
        stage_overwrites[OF assms(1) su assms(4,5,6)])
qed

section \<open>The stage formula\<close>

lemma rk_formula_combine:
  assumes "has_shape (nc T) (nd T) U0" "has_shape (nc T) (nd T) U1" "has_shape (nc T) (nd T) R"
  shows "rk_formula T a b l U0 U1 R (rk_combine a b l U0 U1 R)"
  unfolding rk_formula_def list_all_iff
  using rk_combine_nth[OF assms] by simp

lemma rk_update_formula:
  assumes "shaped T r" "0 \<le> rk" "rk < 3" "rk_update rk r = Inr v"
  shows "rk_formula T (ark ! nat rk) (brk ! nat rk) (lam r) (rho0 r) (rho1 r) (resr r) (rho1 v) \<and>
         rk_formula T (ark ! nat rk) (brk ! nat rk) (lam r) (mom0 r) (mom1 r) (resm r) (mom1 v) \<and>
         rk_formula T (ark ! nat rk) (brk ! nat rk) (lam r) (ene0 r) (ene1 r) (rese r) (ene1 v)"
proof -
  have v: "v = r\<lparr>rho1 := rk_combine (ark ! nat rk) (brk ! nat rk) (lam r) (rho0 r) (rho1 r) (resr r),
            mom1 := rk_combine (ark ! nat rk) (brk ! nat rk) (lam r) (mom0 r) (mom1 r) (resm r),
            ene1 := rk_combine (ark ! nat rk) (brk ! nat rk) (lam r) (ene0 r) (ene1 r) (rese r)\<rparr>"
    using assms(4) unfolding rk_update_ok[OF assms(2,3)] by simp
  show ?thesis
    using assms(1) by (simp add: v shaped_def rk_formula_combine)
qed

section \<open>The time loop\<close>

lemma step_effect:
  assumes "shaped T s" "tables_ok T" "dx T \<noteq> 0"
  shows "\<exists>s'. step c T s = Inr s' \<and> shaped T s' \<and> it s' = it s + 1 \<and>
           (if t s + dt s > Tf T
            then dt s' = Tf T - t s \<and> lam s' = (Tf T - t s) / dx T \<and> t s' = Tf T
            else dt s' = dt s \<and> lam s' = lam s \<and> t s' = t s + dt s)"
proof -
  from step_chain[OF assms, of c] obtain s0 u v3 where
    ch: "clip T s = Inr s0" "u = s0\<lparr>rho0 := rho1 s0, mom0 := mom1 s0, ene0 := ene1 s0\<rparr>"
        "shaped T v3" "stage_frame u v3"
        "step c T s = Inr (v3\<lparr>t := t v3 + dt v3, it := it v3 + 1\<rparr>)"
    by blast
  have s0: "s0 = (if t s + dt s > Tf T
                  then s\<lparr>dt := Tf T - t s, lam := (Tf T - t s) / dx T\<rparr> else s)"
    using ch(1) by (simp add: clip_ok[OF assms(3)])
  have sh: "shaped T (v3\<lparr>t := t v3 + dt v3, it := it v3 + 1\<rparr>)"
    using ch(3) by (simp add: shaped_def)
  show ?thesis
    using ch(4) sh by (simp add: ch(5) ch(2) s0 stage_frame_def)
qed


lemma time_loop_exit: "\<not> t s < Tf T \<Longrightarrow> time_loop c T s = Some (Inr s)"
  by (subst time_loop.simps) simp

lemma time_loop_iter: "t s < Tf T \<Longrightarrow> step c T s = Inr s' \<Longrightarrow> time_loop c T s = time_loop c T s'"
  by (subst time_loop.simps) simp

lemma loop_at_time_loop: "loop_at c T s0 s \<Longrightarrow> time_loop c T s0 = time_loop c T s"
  by (induction rule: loop_at.induct) (simp_all add: time_loop_iter)



lemma loop_at_shaped:
  assumes "tables_ok T" "dx T \<noteq> 0" "shaped T s0"
  shows "loop_at c T s0 s \<Longrightarrow> shaped T s \<and> t s \<le> max (t s0) (Tf T) \<and>
           (t s < Tf T \<longrightarrow> dt s = dt s0 \<and> lam s = lam s0)"
proof (induction rule: loop_at.induct)
  case loop_start
  then show ?case using assms(3) by simp
next
  case (loop_step s s')
  from step_effect[OF _ assms(1,2), of s c] loop_step.IH loop_step.hyps(2,3)
  show ?case by (auto split: if_splits)
qed

lemma bind_res_eq_Inr: "bind_res m f = Inr y \<longleftrightarrow> (\<exists>x. m = Inr x \<and> f x = Inr y)"
  by (cases m) simp_all

lemma init_tables_Inr:
  assumes "init_tables c a = Inr T"
  shows "0 \<le> args_degree a" "args_ncell a \<noteq> 0"
  using assms by (auto simp: init_tables_def Let_def case_prod_beta split: if_splits)

lemma prepare_Inr:
  assumes "prepare c a = Inr (T, s0)"
  shows "init_tables c a = Inr T \<and> tables_ok T \<and> shaped T s0 \<and> dx T \<noteq> 0 \<and>
         max_speed c (rho1 s0) (mom1 s0) (ene1 s0) \<noteq> 0 \<and>
         dt s0 = cfl T * dx T / max_speed c (rho1 s0) (mom1 s0) (ene1 s0) \<and>
         lam s0 = dt s0 / dx T \<and> t s0 = 0 \<and> it s0 = 0 \<and>
         rho1 s0 = project_rows T (\<lambda>i. fst (cell_ic c T i)) (nc T) \<and>
         mom1 s0 = project_rows T (\<lambda>i. fst (snd (cell_ic c T i))) (nc T) \<and>
         ene1 s0 = project_rows T (\<lambda>i. snd (snd (cell_ic c T i))) (nc T)"
proof -
  from assms obtain s1 s2 where
    p: "init_tables c a = Inr T" "allocate T = Inr s1" "project c T s1 = Inr s2"
       "start c T s2 = Inr s0"
    by (auto simp: prepare_def bind_res_eq_Inr)
  have nc0: "0 \<le> nc T"
    using p(2) by (auto simp: allocate_def zeros_def bind_res_eq_Inr split: if_splits)
  from init_tables_ok[OF init_tables_Inr[OF p(1)], of c] p(1)
  have "nc T = args_ncell a" by auto
  then have "0 < args_ncell a" using nc0 init_tables_Inr(2)[OF p(1)] by simp
  then have ok: "tables_ok T" using init_tables_tables_ok[OF p(1)] by simp
  from allocate_ok[OF ok] p(2) have sh1: "shaped T s1" by auto
  have s2: "s2 = s1\<lparr>rho1 := project_rows T (\<lambda>i. fst (cell_ic c T i)) (nc T),
           mom1 := project_rows T (\<lambda>i. fst (snd (cell_ic c T i))) (nc T),
           ene1 := project_rows T (\<lambda>i. snd (snd (cell_ic c T i))) (nc T)\<rparr>"
    using p(3) by (simp add: project_ok[OF sh1 ok])
  have sh2: "shaped T s2" unfolding s2 by (rule project_shaped[OF sh1 ok])
  have st: "max_speed c (rho1 s2) (mom1 s2) (ene1 s2) \<noteq> 0 \<and> dx T \<noteq> 0 \<and>
      s0 = s2\<lparr>it := 0, t := 0, dt := cfl T * dx T / max_speed c (rho1 s2) (mom1 s2) (ene1 s2),
               lam := cfl T * dx T / max_speed c (rho1 s2) (mom1 s2) (ene1 s2) / dx T\<rparr>"
    using p(4) by (auto simp: start_def fdiv_def bind_res_eq_Inr split: if_splits)
  have sh0: "shaped T s0" using sh2 st by (simp add: shaped_def)
  show ?thesis
    using p(1) ok sh0 st by (simp add: s2)
qed

section \<open>Evaluation of the concrete configurations\<close>

lemma range_py_numeral [simp]:
  "range_py 0 1 = [0]" "range_py 0 2 = [0, 1]" "range_py 1 2 = [1]" "range_py 1 1 = []"
  by (simp_all add: range_py_def upt_rec numeral_2_eq_2)

lemmas eval_defs =
  init_tables_def allocate_def zeros_def project_def project_cell_def project_mode_def start_def
  fdiv_def Let_def basis_table_def linspace_def set2_def py_index_def row_def dot_def vmul_def
  matvec_def scal_def edge_value_def add_scaled_def sub_scaled_def rk_combine_def
  volume_loop_def volume_cell_def volume_mode_def first_face_def interior_faces_def
  interior_face_def last_face_def residual_def rk_update_def ark_def brk_def stage_def clip_def
  step_def range_py_0_3

lemma cx_prepare: "prepare cx_collab cx_args = Inr (cx_tables, cx_state0)"
  by (simp add: prepare_def cx_collab_def ex_collab_def cx_args_def cx_tables_def cx_state0_def
      eval_defs numeral_2_eq_2)

lemma cx_step: "step cx_collab cx_tables cx_state0 = Inr cx_state1"
  by (simp add: cx_collab_def ex_collab_def cx_tables_def cx_state0_def cx_state1_def eval_defs)

lemma ex_init_tables: "init_tables ex_collab ex_args = Inr ex_tables"
  by (simp add: init_tables_def ex_collab_def ex_args_def ex_tables_def Let_def basis_table_def
      linspace_def)

lemma ex_tables_ok: "tables_ok ex_tables"
  by (simp add: tables_ok_def ex_tables_def has_shape_def)

lemma ex_shaped: "shaped ex_tables ex_state"
  by (simp add: shaped_def ex_tables_def ex_state_def has_shape_def)

lemma ex_allocate:
  "allocate ex_tables = Inr (ex_state\<lparr>dt := 0, lam := 0, rho1 := [[0, 0], [0, 0]], ene1 := [[0, 0], [0, 0]]\<rparr>)"
  by (simp add: allocate_def zeros_def ex_tables_def ex_state_def numeral_2_eq_2)

lemma ex_prepare: "prepare ex_collab ex_args = Inr (ex_tables, ex_state)"
  apply (simp add: prepare_def ex_init_tables ex_allocate)
  apply (simp add: project_def project_cell_def project_mode_def ex_tables_def ex_state_def
      ex_collab_def Let_def set2_def py_index_def row_def dot_def vmul_def start_def fdiv_def)
  done

section \<open>Sums over the basis\<close>

lemma dot_sum:
  assumes "length a = n" "length b = n"
  shows "dot a b = (\<Sum>q<n. a ! q * b ! q)"
proof -
  have "dot a b = (\<Sum>q = 0..<length (zip a b). map2 (*) a b ! q)"
    unfolding dot_def by (simp add: sum_list_sum_nth)
  also have "\<dots> = (\<Sum>q<n. a ! q * b ! q)"
    using assms by (simp add: atLeast0LessThan)
  finally show ?thesis .
qed

lemma dot_range:
  "dot (map f (range_py 0 (int n))) (map g (range_py 0 (int n))) = (\<Sum>j<n. f (int j) * g (int j))"
  by (subst dot_sum[where n = n]) simp_all

lemma dot_range_left:
  assumes "length b = n"
  shows "dot (map f (range_py 0 (int n))) b = (\<Sum>j<n. f (int j) * b ! j)"
  using assms by (subst dot_sum[where n = n]) simp_all

lemma dot_range_right:
  assumes "length b = n"
  shows "dot b (map f (range_py 0 (int n))) = (\<Sum>j<n. b ! j * f (int j))"
  using assms by (subst dot_sum[where n = n]) simp_all

lemma basis_table_nth:
  "q < nat n \<Longrightarrow> j < nat m \<Longrightarrow> basis_table f pts n m ! q ! j = f (int j) (pts ! q)"
  by (simp add: basis_table_def)

lemma orthonormalD:
  assumes "orthonormal c T" "length (xg T) = nat (nd T)" "length (wg T) = nat (nd T)"
    "i < nat (nd T)" "j < nat (nd T)"
  shows "(\<Sum>q<nat (nd T). shape_value c (int i) (xg T ! q) * shape_value c (int j) (xg T ! q) * wg T ! q)
         = (if i = j then 2 else 0)"
proof -
  have "gauss_inner c T (int i) (int j) = (if int i = int j then 1 else 0)"
    using assms(1,4,5) by (auto simp: orthonormal_def list_all_iff)
  then have "0.5 * (\<Sum>q<nat (nd T). shape_value c (int i) (xg T ! q) * shape_value c (int j) (xg T ! q) * wg T ! q)
      = (if i = j then 1 else 0)"
    using assms(2,3) by (simp add: gauss_inner_def dot_sum[where n = "nat (nd T)"] vmul_def)
  then show ?thesis by (simp split: if_splits)
qed

lemma basis_moment:
  assumes "orthonormal c T" "length (xg T) = nat (nd T)" "length (wg T) = nat (nd T)"
    and "length al = nat (nd T)" "\<And>x. poly_value c T al x = 1" "0 \<le> nd T"
    and "j < nat (nd T)"
  shows "(\<Sum>q<nat (nd T). shape_value c (int j) (xg T ! q) * wg T ! q) = 2 * al ! j"
proof -
  let ?N = "nat (nd T)"
  let ?P = "\<lambda>i q. shape_value c (int i) (xg T ! q)"
  have one: "(\<Sum>i<?N. al ! i * shape_value c (int i) x) = 1" for x
    using assms(5)[of x] assms(4,6) dot_range_right[of al ?N "\<lambda>j. shape_value c j x"]
    by (simp add: poly_value_def)
  have "(\<Sum>q<?N. ?P j q * wg T ! q) = (\<Sum>q<?N. ?P j q * wg T ! q * (\<Sum>i<?N. al ! i * ?P i q))"
    by (simp add: one)
  also have "\<dots> = (\<Sum>q<?N. \<Sum>i<?N. al ! i * (?P i q * ?P j q * wg T ! q))"
    by (simp add: sum_distrib_left algebra_simps)
  also have "\<dots> = (\<Sum>i<?N. \<Sum>q<?N. al ! i * (?P i q * ?P j q * wg T ! q))"
    by (rule sum.swap)
  also have "\<dots> = (\<Sum>i<?N. al ! i * (\<Sum>q<?N. ?P i q * ?P j q * wg T ! q))"
    by (simp add: sum_distrib_left)
  also have "\<dots> = (\<Sum>i<?N. al ! i * (if i = j then 2 else 0))"
    by (rule sum.cong) (simp_all add: orthonormalD[OF assms(1,2,3) _ assms(7)])
  also have "\<dots> = 2 * al ! j"
    using assms(7) by (simp add: sum.delta' if_distrib[of "\<lambda>x. _ * x"] cong: if_cong)
  finally show ?thesis .
qed

lemma project_entry_const:
  assumes "Vf T = basis_table (shape_value c) (xg T) (nd T) (nd T)"
    and "orthonormal c T" "length (xg T) = nat (nd T)" "length (wg T) = nat (nd T)"
    and "length al = nat (nd T)" "\<And>x. poly_value c T al x = 1" "0 \<le> nd T"
    and "0 \<le> j" "j < nd T" "length pts = nat (nd T)"
  shows "project_entry T (map (\<lambda>_. C) pts) j = C * al ! nat j"
proof -
  let ?N = "nat (nd T)"
  have jn: "nat j < ?N" "int (nat j) = j" using assms(8,9) by auto
  have len: "length (Vf T) = ?N" by (simp add: assms(1) basis_table_def)
  have col: "map (\<lambda>r. r ! nat j) (Vf T) ! q = shape_value c j (xg T ! q)" if "q < ?N" for q
    using that jn len by (simp add: assms(1) basis_table_nth)
  have "dot (map (\<lambda>_. C) pts) (vmul (map (\<lambda>r. r ! nat j) (Vf T)) (wg T)) =
        (\<Sum>q<?N. C * (shape_value c j (xg T ! q) * wg T ! q))"
    using assms(4,10) len col
    by (subst dot_sum[where n = ?N]) (simp_all add: vmul_def)
  also have "\<dots> = C * (\<Sum>q<?N. shape_value c (int (nat j)) (xg T ! q) * wg T ! q)"
    using assms(8) by (simp add: sum_distrib_left)
  also have "\<dots> = C * (2 * al ! nat j)"
    by (simp only: basis_moment[OF assms(2,3,4,5,6,7) jn(1)])
  finally show ?thesis by (simp add: project_entry_def)
qed

lemma poly_value_const:
  assumes "length al = nat (nd T)" "\<And>x. poly_value c T al x = 1" "0 \<le> nd T"
  shows "poly_value c T (map (\<lambda>j. C * al ! nat j) (range_py 0 (nd T))) x = C"
proof -
  let ?N = "nat (nd T)"
  have n: "int ?N = nd T" using assms(3) by simp
  have one: "(\<Sum>i<?N. al ! i * shape_value c (int i) x) = 1"
    using assms(2)[of x] assms(1,3) dot_range_right[of al ?N "\<lambda>j. shape_value c j x"]
    by (simp add: poly_value_def)
  have "poly_value c T (map (\<lambda>j. C * al ! nat j) (range_py 0 (nd T))) x =
        (\<Sum>i<?N. C * al ! i * shape_value c (int i) x)"
    using dot_range[of "\<lambda>j. C * al ! nat j" ?N "\<lambda>j. shape_value c j x"] assms(3)
    by (simp add: poly_value_def)
  also have "\<dots> = C * (\<Sum>i<?N. al ! i * shape_value c (int i) x)"
    by (simp add: sum_distrib_left algebra_simps)
  finally show ?thesis by (simp add: one)
qed

















lemma ex_orthonormal: "orthonormal ex_collab ex_tables"
  by (simp add: orthonormal_def gauss_inner_def ex_collab_def ex_tables_def dot_def vmul_def)

lemma ex_constants:
  "poly_value ex_collab ex_tables [1, 0] x = 1"
  "dot [1, 0] (map (\<lambda>j. shape_grad ex_collab j x) (range_py 0 (nd ex_tables))) = 0"
  by (simp_all add: poly_value_def ex_collab_def ex_tables_def dot_def)

section \<open>Index safety of the face terms\<close>

text \<open>
  Claim C9. For every degree \<open>k \<ge> 0\<close> and every cell count \<open>nc \<ge> 1\<close> the set-up
  succeeds, the table \<open>Vu\<close> has \<open>nu = max(2, k+1) \<ge> 2\<close> rows, and the two edge rows
  \<^verbatim>\<open>Vu[0]\<close> and \<^verbatim>\<open>Vu[-1]\<close> are in bounds and at different positions (\<open>0\<close> and
  \<open>nu - 1\<close>), also when \<open>nd = 1\<close>. In an array of \<open>nc\<close> rows the indices \<open>0\<close> and
  \<open>-1\<close>, every \<open>i\<close> of the volume loop and every \<open>i - 1\<close> and \<open>i\<close> of the loop over
  the interior faces are in bounds, and the residual assembly of a state of shape
  \<open>[nc][nd]\<close> raises no exception and keeps the shape.
\<close>

theorem edge_rows_and_cells_in_bounds:
  assumes "0 \<le> args_degree a" "1 \<le> args_ncell a"
  shows "\<exists>T. init_tables c a = Inr T \<and> nu T = max 2 (args_degree a + 1) \<and> 2 \<le> nu T \<and>
           int (length (Vu T)) = nu T \<and>
           py_index (Vu T) 0 = Inr 0 \<and> py_index (Vu T) (- 1) = Inr (nat (nu T) - 1) \<and>
           (0 :: nat) \<noteq> nat (nu T) - 1 \<and>
           (\<forall>A :: mat. int (length A) = nc T \<longrightarrow>
              py_index A 0 = Inr 0 \<and> py_index A (- 1) = Inr (nat (nc T) - 1) \<and>
              list_all (\<lambda>i. py_index A i = Inr (nat i)) (range_py 0 (nc T)) \<and>
              list_all (\<lambda>i. py_index A (i - 1) = Inr (nat (i - 1)) \<and> py_index A i = Inr (nat i))
                (range_py 1 (nc T))) \<and>
           (\<forall>s. shaped T s \<longrightarrow> (\<exists>s'. residual c T s = Inr s' \<and> shaped T s'))"
proof -
  from init_tables_ok[of a c] assms obtain T where
    T: "init_tables c a = Inr T" "nu T = max 2 (args_degree a + 1)" "nc T = args_ncell a" by auto
  have ok: "tables_ok T" using init_tables_tables_ok[OF T(1)] assms(2) by simp
  note V = tables_ok_Vu[OF ok]
  have a1: "py_index (Vu T) 0 = Inr 0" using V by (simp add: py_index_nonneg)
  have a2: "py_index (Vu T) (- 1) = Inr (nat (nu T) - 1)" using V by (simp add: py_index_last)
  have a3: "(0 :: nat) \<noteq> nat (nu T) - 1" using V by auto
  have a4: "py_index A 0 = Inr 0 \<and> py_index A (- 1) = Inr (nat (nc T) - 1) \<and>
              list_all (\<lambda>i. py_index A i = Inr (nat i)) (range_py 0 (nc T)) \<and>
              list_all (\<lambda>i. py_index A (i - 1) = Inr (nat (i - 1)) \<and> py_index A i = Inr (nat i))
                (range_py 1 (nc T))" if "int (length A) = nc T" for A :: mat
  proof -
    have ne: "A \<noteq> []" using that V(7) by auto
    have l: "length A = nat (nc T)" using that by simp
    show ?thesis
      using that V(7) by (auto simp: py_index_nonneg py_index_last[OF ne] l list_all_iff)
  qed
  have a5: "\<exists>s'. residual c T s = Inr s' \<and> shaped T s'" if "shaped T s" for s
    using residual_total[OF that ok, of c] by blast
  show ?thesis
    using T(1,2) V(1,2) a1 a2 a3 a4 a5 by (intro exI[of _ T]) auto
qed

theorem edge_rows_and_cells_in_bounds_witness:
  "0 \<le> args_degree ex_args \<and> 1 \<le> args_ncell ex_args \<and>
   (\<exists>T. init_tables ex_collab ex_args = Inr T \<and> nu T = 2 \<and>
        py_index (Vu T) 0 = Inr 0 \<and> py_index (Vu T) (- 1) = Inr 1)"
  using edge_rows_and_cells_in_bounds[of ex_args ex_collab]
  by (auto simp: ex_args_def)

section \<open>The step-start copy and the residual buffers\<close>

text \<open>
  Claim C10. Within one time step the copies \<open>rho0\<close>, \<open>mom0\<close>, \<open>ene0\<close> are written once,
  before stage 0, and no stage changes them: the step is the three stages run on a state
  \<open>u\<close> whose working arrays and whose copies both are the working arrays at the start of
  the step, and the inputs \<open>u\<close>, \<open>v1\<close>, \<open>v2\<close> of the stages and the result \<open>v3\<close> all hold
  these copies. The volume loop overwrites the residual arrays entirely: whatever arrays
  \<open>A\<close>, \<open>B\<close>, \<open>C\<close> of the right shape the residual buffers hold before, the volume loop, the
  residual, every stage and the whole step give the same result.
\<close>

theorem step_start_copy_kept_and_residual_overwritten:
  assumes "tables_ok T" "shaped T s" "dx T \<noteq> 0"
    and "has_shape (nc T) (nd T) A" "has_shape (nc T) (nd T) B" "has_shape (nc T) (nd T) C"
  shows "(\<exists>u v1 v2 v3.
            stage c T 0 u = Inr v1 \<and> stage c T 1 v1 = Inr v2 \<and> stage c T 2 v2 = Inr v3 \<and>
            step c T s = Inr (v3\<lparr>t := t v3 + dt v3, it := it v3 + 1\<rparr>) \<and>
            rho1 u = rho1 s \<and> mom1 u = mom1 s \<and> ene1 u = ene1 s \<and>
            list_all (\<lambda>w. rho0 w = rho1 s \<and> mom0 w = mom1 s \<and> ene0 w = ene1 s) [u, v1, v2, v3]) \<and>
         volume_loop c T (s\<lparr>resr := A, resm := B, rese := C\<rparr>) = volume_loop c T s \<and>
         residual c T (s\<lparr>resr := A, resm := B, rese := C\<rparr>) = residual c T s \<and>
         stage c T rk (s\<lparr>resr := A, resm := B, rese := C\<rparr>) = stage c T rk s \<and>
         step c T (s\<lparr>resr := A, resm := B, rese := C\<rparr>) = step c T s"
proof -
  from step_chain[OF assms(2,1,3), of c] obtain s0 u v1 v2 v3 where
    ch: "clip T s = Inr s0" "u = s0\<lparr>rho0 := rho1 s0, mom0 := mom1 s0, ene0 := ene1 s0\<rparr>"
        "stage_frame u v1" "stage_frame u v2" "stage_frame u v3"
        "stage c T 0 u = Inr v1" "stage c T 1 v1 = Inr v2" "stage c T 2 v2 = Inr v3"
        "step c T s = Inr (v3\<lparr>t := t v3 + dt v3, it := it v3 + 1\<rparr>)"
    by blast
  have s0: "rho1 s0 = rho1 s" "mom1 s0 = mom1 s" "ene1 s0 = ene1 s"
    using ch(1) by (auto simp: clip_ok[OF assms(3)] split: if_splits)
  have "rho1 u = rho1 s \<and> mom1 u = mom1 s \<and> ene1 u = ene1 s \<and>
        list_all (\<lambda>w. rho0 w = rho1 s \<and> mom0 w = mom1 s \<and> ene0 w = ene1 s) [u, v1, v2, v3]"
    using ch(2,3,4,5) s0 by (simp add: stage_frame_def)
  then have first: "\<exists>u v1 v2 v3.
            stage c T 0 u = Inr v1 \<and> stage c T 1 v1 = Inr v2 \<and> stage c T 2 v2 = Inr v3 \<and>
            step c T s = Inr (v3\<lparr>t := t v3 + dt v3, it := it v3 + 1\<rparr>) \<and>
            rho1 u = rho1 s \<and> mom1 u = mom1 s \<and> ene1 u = ene1 s \<and>
            list_all (\<lambda>w. rho0 w = rho1 s \<and> mom0 w = mom1 s \<and> ene0 w = ene1 s) [u, v1, v2, v3]"
    using ch(6,7,8,9) by blast
  show ?thesis
    using first volume_loop_overwrites[OF assms(1,2,4,5,6)] residual_overwrites[OF assms(1,2,4,5,6)]
      stage_overwrites[OF assms(1,2,4,5,6)] step_overwrites[OF assms]
    by simp
qed

theorem step_start_copy_kept_and_residual_overwritten_witness:
  "tables_ok ex_tables \<and> shaped ex_tables ex_state \<and> dx ex_tables \<noteq> 0 \<and>
   has_shape (nc ex_tables) (nd ex_tables) [[1, 2], [3, 4]] \<and>
   residual ex_collab ex_tables
     (ex_state\<lparr>resr := [[1, 2], [3, 4]], resm := [[1, 2], [3, 4]], rese := [[1, 2], [3, 4]]\<rparr>) =
   residual ex_collab ex_tables ex_state"
proof -
  have h: "has_shape (nc ex_tables) (nd ex_tables) [[1, 2], [3, 4]]"
    by (simp add: has_shape_def ex_tables_def)
  have d: "dx ex_tables \<noteq> 0" by (simp add: ex_tables_def)
  show ?thesis
    using step_start_copy_kept_and_residual_overwritten[OF ex_tables_ok ex_shaped d h h h,
        of ex_collab 0] ex_tables_ok ex_shaped d h
    by simp
qed

section \<open>The three Runge-Kutta stages\<close>

text \<open>
  Claim C3. A time step is three stages with the coefficients \<open>a = [0, 3/4, 1/3]\<close> and
  \<open>b = 1 - a = [1, 1/4, 2/3]\<close>. With \<open>d\<close> the step size used (\<open>dt\<close>, or \<open>Tf - t\<close> when the
  step is clipped) and \<open>lambda = d/dx\<close>, stage \<open>rk\<close> sets every entry of the three working
  fields to \<open>a[rk]*u0 + b[rk]*(u1 - lambda*residual(u1))\<close>, where \<open>u0\<close> is the working state at
  the start of the step and the residual is that of the working state before the stage.
  The state after stage 2 is the state after the step, with \<open>t\<close> advanced by \<open>d\<close>.
\<close>

theorem three_stage_runge_kutta_step:
  assumes "tables_ok T" "shaped T s" "dx T \<noteq> 0" "lam s = dt s / dx T"
  shows "\<exists>d u r0 v1 r1 v2 r2 v3.
      d = (if t s + dt s > Tf T then Tf T - t s else dt s) \<and>
      rho1 u = rho1 s \<and> mom1 u = mom1 s \<and> ene1 u = ene1 s \<and>
      residual c T u = Inr r0 \<and> rk_stage_spec T 0 1 (d / dx T) s u r0 v1 \<and>
      residual c T v1 = Inr r1 \<and> rk_stage_spec T (3 / 4) (1 / 4) (d / dx T) s v1 r1 v2 \<and>
      residual c T v2 = Inr r2 \<and> rk_stage_spec T (1 / 3) (2 / 3) (d / dx T) s v2 r2 v3 \<and>
      step c T s = Inr (v3\<lparr>t := t s + d, it := it s + 1\<rparr>) \<and> dt v3 = d \<and> lam v3 = d / dx T"
proof -
  define d where "d = (if t s + dt s > Tf T then Tf T - t s else dt s)"
  from step_chain[OF assms(2,1,3), of c] obtain s0 u r0 v1 r1 v2 r2 v3 where
    ch: "clip T s = Inr s0" "u = s0\<lparr>rho0 := rho1 s0, mom0 := mom1 s0, ene0 := ene1 s0\<rparr>"
        "residual c T u = Inr r0" "res_frame u r0" "shaped T r0" "rk_update 0 r0 = Inr v1"
        "stage_frame u v1"
        "residual c T v1 = Inr r1" "res_frame v1 r1" "shaped T r1" "rk_update 1 r1 = Inr v2"
        "stage_frame u v2"
        "residual c T v2 = Inr r2" "res_frame v2 r2" "shaped T r2" "rk_update 2 r2 = Inr v3"
        "stage_frame u v3"
        "step c T s = Inr (v3\<lparr>t := t v3 + dt v3, it := it v3 + 1\<rparr>)"
    by blast
  have s0: "rho1 s0 = rho1 s" "mom1 s0 = mom1 s" "ene1 s0 = ene1 s" "t s0 = t s" "it s0 = it s"
      "dt s0 = d" "lam s0 = d / dx T"
    using ch(1) assms(4) by (auto simp: clip_ok[OF assms(3)] d_def split: if_splits)
  have u: "rho1 u = rho1 s" "mom1 u = mom1 s" "ene1 u = ene1 s" "t u = t s" "it u = it s"
      "dt u = d" "lam u = d / dx T" "rho0 u = rho1 s" "mom0 u = mom1 s" "ene0 u = ene1 s"
    using s0 by (simp_all add: ch(2))
  have f1: "rk_stage_spec T 0 1 (d / dx T) s u r0 v1"
    using rk_update_formula[OF ch(5) _ _ ch(6)] ch(4) u
    by (simp add: rk_stage_spec_def res_frame_def ark_brk_nth)
  have f2: "rk_stage_spec T (3 / 4) (1 / 4) (d / dx T) s v1 r1 v2"
    using rk_update_formula[OF ch(10) _ _ ch(11)] ch(9) ch(7) u
    by (simp add: rk_stage_spec_def res_frame_def stage_frame_def ark_def brk_def numeral_2_eq_2)
  have f3: "rk_stage_spec T (1 / 3) (2 / 3) (d / dx T) s v2 r2 v3"
    using rk_update_formula[OF ch(15) _ _ ch(16)] ch(14) ch(12) u
    by (simp add: rk_stage_spec_def res_frame_def stage_frame_def ark_def brk_def numeral_2_eq_2)
  have fin: "t v3 = t s" "it v3 = it s" "dt v3 = d" "lam v3 = d / dx T"
    using ch(17) u by (simp_all add: stage_frame_def)
  have st: "step c T s = Inr (v3\<lparr>t := t s + d, it := it s + 1\<rparr>)"
    using ch(18) fin by simp
  have "d = (if t s + dt s > Tf T then Tf T - t s else dt s) \<and>
      rho1 u = rho1 s \<and> mom1 u = mom1 s \<and> ene1 u = ene1 s \<and>
      residual c T u = Inr r0 \<and> rk_stage_spec T 0 1 (d / dx T) s u r0 v1 \<and>
      residual c T v1 = Inr r1 \<and> rk_stage_spec T (3 / 4) (1 / 4) (d / dx T) s v1 r1 v2 \<and>
      residual c T v2 = Inr r2 \<and> rk_stage_spec T (1 / 3) (2 / 3) (d / dx T) s v2 r2 v3 \<and>
      step c T s = Inr (v3\<lparr>t := t s + d, it := it s + 1\<rparr>) \<and> dt v3 = d \<and> lam v3 = d / dx T"
    using u(1,2,3) ch(3,8,13) f1 f2 f3 fin(3,4) st d_def by blast
  then show ?thesis by blast
qed

theorem three_stage_runge_kutta_step_witness:
  "tables_ok ex_tables \<and> shaped ex_tables ex_state \<and> dx ex_tables \<noteq> 0 \<and>
   lam ex_state = dt ex_state / dx ex_tables \<and>
   (\<exists>v. step ex_collab ex_tables ex_state = Inr v \<and> t v = 3 / 20 \<and> it v = 1 \<and>
        dt v = 3 / 20 \<and> lam v = 3 / 10)"
proof -
  have d: "dx ex_tables \<noteq> 0" and l: "lam ex_state = dt ex_state / dx ex_tables"
    by (simp_all add: ex_tables_def ex_state_def)
  have dd: "(if t ex_state + dt ex_state > Tf ex_tables then Tf ex_tables - t ex_state
             else dt ex_state) = 3 / 20"
    by (simp add: ex_tables_def ex_state_def)
  from three_stage_runge_kutta_step[OF ex_tables_ok ex_shaped d l, of ex_collab]
  obtain x v3 where
    v3: "x = (if t ex_state + dt ex_state > Tf ex_tables then Tf ex_tables - t ex_state
              else dt ex_state)"
      "step ex_collab ex_tables ex_state = Inr (v3\<lparr>t := t ex_state + x, it := it ex_state + 1\<rparr>)"
      "dt v3 = x" "lam v3 = x / dx ex_tables"
    by blast
  have x: "x = 3 / 20" using v3(1) dd by simp
  have "t (v3\<lparr>t := t ex_state + x, it := it ex_state + 1\<rparr>) = 3 / 20"
       "it (v3\<lparr>t := t ex_state + x, it := it ex_state + 1\<rparr>) = 1"
       "dt (v3\<lparr>t := t ex_state + x, it := it ex_state + 1\<rparr>) = 3 / 20"
       "lam (v3\<lparr>t := t ex_state + x, it := it ex_state + 1\<rparr>) = 3 / 10"
    using v3(3,4) x by (simp_all add: ex_tables_def ex_state_def)
  then have "\<exists>v. step ex_collab ex_tables ex_state = Inr v \<and> t v = 3 / 20 \<and> it v = 1 \<and>
        dt v = 3 / 20 \<and> lam v = 3 / 10"
    using v3(2) by blast
  then show ?thesis using ex_tables_ok ex_shaped d l by blast
qed

section \<open>Clipping of the last step and termination\<close>



section \<open>The time step\<close>

text \<open>
  Claim C4, as the script has it. The script computes \<open>dt\<close> once, before the time loop,
  from the projected initial state, and the loop changes it only by clipping. So at every
  iteration whose step does not overshoot \<open>Tf\<close> the step size is
  \<open>cfl*dx/max_speed(initial state)\<close>, with \<open>cfl\<close> the command-line value divided by
  \<open>2k+1\<close>; it is the step of the state, \<open>lam = dt/dx\<close>, and the step leaves both unchanged.
\<close>

theorem time_step_from_initial_state:
  assumes "prepare c a = Inr (T, s0)" "loop_at c T s0 s" "t s < Tf T" "t s + dt s \<le> Tf T"
  shows "cfl T = args_cfl a / real_of_int (2 * args_degree a + 1) \<and>
         dt s = cfl T * dx T / max_speed c (rho1 s0) (mom1 s0) (ene1 s0) \<and>
         lam s = dt s / dx T \<and>
         (\<exists>s'. step c T s = Inr s' \<and> dt s' = dt s \<and> lam s' = lam s \<and> t s' = t s + dt s)"
proof -
  note p = prepare_Inr[OF assms(1)]
  from p have ok: "tables_ok T" and sh0: "shaped T s0" and dx0: "dx T \<noteq> 0" by auto
  from init_tables_ok[OF init_tables_Inr[of c a T], of c] p
  have cfl: "cfl T = args_cfl a / real_of_int (2 * args_degree a + 1)" by auto
  from loop_at_shaped[OF ok dx0 sh0 assms(2)] assms(3)
  have s: "shaped T s" "dt s = dt s0" "lam s = lam s0" by auto
  from step_effect[OF s(1) ok dx0, of c] assms(4) obtain s' where
    "step c T s = Inr s'" "dt s' = dt s" "lam s' = lam s" "t s' = t s + dt s" by auto
  then show ?thesis using cfl s(2,3) p by auto
qed

theorem time_step_from_initial_state_witness:
  "prepare cx_collab cx_args = Inr (cx_tables, cx_state0) \<and>
   loop_at cx_collab cx_tables cx_state0 cx_state1 \<and>
   t cx_state1 < Tf cx_tables \<and> t cx_state1 + dt cx_state1 \<le> Tf cx_tables \<and>
   dt cx_state1 = 1 / 8 \<and>
   cfl cx_tables * dx cx_tables /
     max_speed cx_collab (rho1 cx_state0) (mom1 cx_state0) (ene1 cx_state0) = 1 / 8"
proof -
  have l: "loop_at cx_collab cx_tables cx_state0 cx_state1"
    by (rule loop_step[OF loop_start _ cx_step]) (simp add: cx_state0_def cx_tables_def)
  have a: "t cx_state1 < Tf cx_tables" "t cx_state1 + dt cx_state1 \<le> Tf cx_tables"
    by (simp_all add: cx_state1_def cx_tables_def)
  from time_step_from_initial_state[OF cx_prepare l a]
  have e: "dt cx_state1 = cfl cx_tables * dx cx_tables /
     max_speed cx_collab (rho1 cx_state0) (mom1 cx_state0) (ene1 cx_state0)" by blast
  have v: "dt cx_state1 = 1 / 8" by (simp add: cx_state1_def)
  have "cfl cx_tables * dx cx_tables /
     max_speed cx_collab (rho1 cx_state0) (mom1 cx_state0) (ene1 cx_state0) = 1 / 8"
    by (rule trans[OF e[symmetric] v])
  then show ?thesis using cx_prepare l a v by blast
qed

text \<open>
  Claim C4 as stated fails: at the second iteration of this run the step does not
  overshoot \<open>Tf\<close> and is run with \<open>dt = 1/8\<close>, while \<open>cfl*dx/max_speed\<close> of the state at
  the start of that step is \<open>96/683\<close>.
\<close>

theorem time_step_not_from_current_state:
  "prepare cx_collab cx_args = Inr (cx_tables, cx_state0) \<and>
   t cx_state0 < Tf cx_tables \<and> step cx_collab cx_tables cx_state0 = Inr cx_state1 \<and>
   t cx_state1 < Tf cx_tables \<and> t cx_state1 + dt cx_state1 \<le> Tf cx_tables \<and>
   clip cx_tables cx_state1 = Inr cx_state1 \<and> dt cx_state1 = 1 / 8 \<and>
   cfl cx_tables * dx cx_tables /
     max_speed cx_collab (rho1 cx_state1) (mom1 cx_state1) (ene1 cx_state1) = 96 / 683"
  using cx_prepare cx_step
  by (simp add: cx_state0_def cx_state1_def cx_tables_def cx_collab_def clip_def)

section \<open>Conservation of mass\<close>



section \<open>Projection of a constant\<close>

text \<open>
  Claim C7. For every degree \<open>k \<ge> 0\<close> (the set-up succeeds) and every cell, when the
  initial condition is constant in each field, the projection computes coefficients whose
  cell polynomial is that constant at every point. The assumptions are those the claim
  names: the basis is orthonormal for the inner product \<open>1/2 \<integral> f g\<close>, evaluated by the Gauss
  rule, and represents constants (\<open>al\<close> are the coefficients of the constant one);
  \<open>leggauss\<close> returns \<open>k + 1\<close> nodes and weights.
\<close>

theorem constant_projection_exact:
  assumes "init_tables c a = Inr T" "0 < args_ncell a"
    and "length (xg T) = nat (nd T)" "length (wg T) = nat (nd T)"
    and "orthonormal c T"
    and "length al = nat (nd T)" "\<And>x. poly_value c T al x = 1"
    and "\<And>xs. initial_condition c xs = (map (\<lambda>_. cr) xs, map (\<lambda>_. cm) xs, map (\<lambda>_. ce) xs)"
  shows "\<exists>s0 s. allocate T = Inr s0 \<and> project c T s0 = Inr s \<and>
           (\<forall>i x. 0 \<le> i \<and> i < nc T \<longrightarrow>
              poly_value c T (rho1 s ! nat i) x = cr \<and>
              poly_value c T (mom1 s ! nat i) x = cm \<and>
              poly_value c T (ene1 s ! nat i) x = ce)"
proof -
  have ok: "tables_ok T" by (rule init_tables_tables_ok[OF assms(1,2)])
  then have nd0: "0 \<le> nd T" and nc0: "0 \<le> nc T" by (auto simp: tables_ok_def)
  from init_tables_ok[OF init_tables_Inr[OF assms(1)], of c] assms(1)
  have Vf: "Vf T = basis_table (shape_value c) (xg T) (nd T) (nd T)" by auto
  from allocate_ok[OF ok] obtain s0 where s0: "allocate T = Inr s0" "shaped T s0" by blast
  let ?s = "s0\<lparr>rho1 := project_rows T (\<lambda>i. fst (cell_ic c T i)) (nc T),
              mom1 := project_rows T (\<lambda>i. fst (snd (cell_ic c T i))) (nc T),
              ene1 := project_rows T (\<lambda>i. snd (snd (cell_ic c T i))) (nc T)\<rparr>"
  have pr: "project c T s0 = Inr ?s" by (rule project_ok[OF s0(2) ok])
  have lp: "length (cell_points c T i) = nat (nd T)" for i
    by (simp add: cell_points_def assms(3))
  have entry: "project_entry T (map (\<lambda>_. C) (cell_points c T i)) j = C * al ! nat j"
    if "j \<in> set (range_py 0 (nd T))" for C i j
    using that by (intro project_entry_const[OF Vf assms(5,3,4,6,7) nd0 _ _ lp]) auto
  have rowc: "project_rows T (\<lambda>i. map (\<lambda>_. C) (cell_points c T i)) (nc T) ! nat i =
      map (\<lambda>j. C * al ! nat j) (range_py 0 (nd T))" if "0 \<le> i" "i < nc T" for C i
    using that by (simp add: project_rows_def entry cong: map_cong)
  have "poly_value c T (rho1 ?s ! nat i) x = cr \<and>
        poly_value c T (mom1 ?s ! nat i) x = cm \<and>
        poly_value c T (ene1 ?s ! nat i) x = ce" if "0 \<le> i \<and> i < nc T" for i x
    using that
    by (simp add: cell_ic_def assms(8) rowc poly_value_const[OF assms(6,7) nd0])
  then show ?thesis using s0(1) pr by blast
qed

theorem constant_projection_exact_witness:
  "init_tables ex_collab ex_args = Inr ex_tables \<and> 0 < args_ncell ex_args \<and>
   length (xg ex_tables) = nat (nd ex_tables) \<and> length (wg ex_tables) = nat (nd ex_tables) \<and>
   orthonormal ex_collab ex_tables \<and> length [1, 0 :: real] = nat (nd ex_tables) \<and>
   (\<forall>x. poly_value ex_collab ex_tables [1, 0] x = 1) \<and>
   (\<forall>xs. initial_condition ex_collab xs =
      (map (\<lambda>_. 1) xs, map (\<lambda>_. 0) xs, map (\<lambda>_. 5 / 2) xs)) \<and>
   (\<exists>s0 s. allocate ex_tables = Inr s0 \<and> project ex_collab ex_tables s0 = Inr s \<and>
      poly_value ex_collab ex_tables (rho1 s ! 1) (1 / 3) = 1 \<and>
      poly_value ex_collab ex_tables (ene1 s ! 0) (- 1) = 5 / 2)"
proof -
  have n: "0 < args_ncell ex_args" by (simp add: ex_args_def)
  have l: "length (xg ex_tables) = nat (nd ex_tables)" "length (wg ex_tables) = nat (nd ex_tables)"
    "length [1, 0 :: real] = nat (nd ex_tables)"
    by (simp_all add: ex_tables_def)
  have ic: "initial_condition ex_collab xs =
      (map (\<lambda>_. 1) xs, map (\<lambda>_. 0) xs, map (\<lambda>_. 5 / 2) xs)" for xs
    by (simp add: ex_collab_def)
  from constant_projection_exact[OF ex_init_tables n l(1,2) ex_orthonormal l(3) ex_constants(1) ic]
  obtain s0 s where
    p: "allocate ex_tables = Inr s0" "project ex_collab ex_tables s0 = Inr s"
       "\<forall>i x. 0 \<le> i \<and> i < nc ex_tables \<longrightarrow>
              poly_value ex_collab ex_tables (rho1 s ! nat i) x = 1 \<and>
              poly_value ex_collab ex_tables (mom1 s ! nat i) x = 0 \<and>
              poly_value ex_collab ex_tables (ene1 s ! nat i) x = 5 / 2"
    by blast
  have "poly_value ex_collab ex_tables (rho1 s ! 1) (1 / 3) = 1"
       "poly_value ex_collab ex_tables (ene1 s ! 0) (- 1) = 5 / 2"
    using p(3)[rule_format, of 1 "1 / 3"] p(3)[rule_format, of 0 "- 1"]
    by (simp_all add: ex_tables_def)
  then show ?thesis
    using ex_init_tables n l ex_orthonormal ex_constants(1) ic p(1,2) by blast
qed

section \<open>The boundary faces\<close>

text \<open>
  Claim C2 against the script. At the first face (lines 147 to 157) the script evaluates
  cell \<open>0\<close> with the row \<^verbatim>\<open>Vu[0]\<close>, its left edge, passes that state twice to the numerical
  flux and subtracts the flux times \<^verbatim>\<open>Vu[0]\<close> from the residual of cell \<open>0\<close>. At the last
  face (lines 174 to 184) it evaluates cell \<open>nc-1\<close> with the row \<^verbatim>\<open>Vu[0]\<close> again, the left
  edge of the last cell and not its right edge \<^verbatim>\<open>Vu[-1]\<close>, and adds the flux times
  \<^verbatim>\<open>Vu[0]\<close>. For degree one, two cells on \<open>[0,1]\<close> and a density \<open>1 + sqrt 3 * xi\<close> in the
  last cell, the state passed to the flux is the left-edge value \<open>1 - sqrt 3\<close> (the
  right-edge value is \<open>1 + sqrt 3\<close>) and the row added to the residual is
  \<open>(1 - sqrt 3) * [1, - sqrt 3]\<close>. For the constant state \<open>(1, 0, 5/2)\<close> with the flux
  \<open>f(u) = u\<close>, the assembled residual of the last cell is \<open>[0, - 2 * sqrt 3]\<close> for the
  density and \<open>[0, - 5 * sqrt 3]\<close> for the energy: the constant state is not steady.
\<close>

theorem last_face_uses_left_edge_row:
  "last_face ex_collab ex_tables (ex_state\<lparr>rho1 := [[1, 0], [1, 1]]\<rparr>) =
     Inr (ex_state\<lparr>rho1 := [[1, 0], [1, 1]],
                    resr := [[0, 0], [1 - sqrt 3, 3 - sqrt 3]],
                    rese := [[0, 0], [5 / 2, - (5 * sqrt 3 / 2)]]\<rparr>) \<and>
   edge_value [[1, 0], [1, 1]] (- 1) (Vu ex_tables) 0 = Inr (1 - sqrt 3) \<and>
   edge_value [[1, 0], [1, 1]] (- 1) (Vu ex_tables) (- 1) = Inr (1 + sqrt 3) \<and>
   residual ex_collab ex_tables ex_state =
     Inr (ex_state\<lparr>resr := [[0, 0], [0, - (2 * sqrt 3)]],
                    rese := [[0, 0], [0, - (5 * sqrt 3)]]\<rparr>)"
  apply (intro conjI)
     apply (simp add: ex_collab_def ex_tables_def ex_state_def eval_defs algebra_simps)
    apply (simp add: ex_collab_def ex_tables_def ex_state_def eval_defs)
   apply (simp add: ex_collab_def ex_tables_def ex_state_def eval_defs)
  apply (simp add: ex_collab_def ex_tables_def ex_state_def eval_defs)
  done

section \<open>The limiter option\<close>

lemma Mdx2_ignored:
  "project_mode (T\<lparr>Mdx2 := x\<rparr>) = project_mode T"
  "volume_mode (T\<lparr>Mdx2 := x\<rparr>) = volume_mode T"
  "first_face c (T\<lparr>Mdx2 := x\<rparr>) = first_face c T"
  "interior_face c (T\<lparr>Mdx2 := x\<rparr>) = interior_face c T"
  "last_face c (T\<lparr>Mdx2 := x\<rparr>) = last_face c T"
  "clip (T\<lparr>Mdx2 := x\<rparr>) = clip T"
  "start c (T\<lparr>Mdx2 := x\<rparr>) = start c T"
  by (intro ext, simp add: project_mode_def volume_mode_def first_face_def interior_face_def
      last_face_def clip_def start_def)+

lemma Mdx2_ignored_allocate: "allocate (T\<lparr>Mdx2 := x\<rparr>) = allocate T"
  by (simp add: allocate_def)

lemma Mdx2_ignored_loops:
  "project c (T\<lparr>Mdx2 := x\<rparr>) = project c T"
  "step c (T\<lparr>Mdx2 := x\<rparr>) = step c T"
proof -
  have pc: "project_cell c (T\<lparr>Mdx2 := x\<rparr>) = project_cell c T"
    by (intro ext) (simp add: project_cell_def Mdx2_ignored)
  show "project c (T\<lparr>Mdx2 := x\<rparr>) = project c T"
    by (intro ext) (simp add: project_def pc)
  have vc: "volume_cell c (T\<lparr>Mdx2 := x\<rparr>) = volume_cell c T"
    by (intro ext) (simp add: volume_cell_def Mdx2_ignored)
  have vl: "volume_loop c (T\<lparr>Mdx2 := x\<rparr>) = volume_loop c T"
    by (intro ext) (simp add: volume_loop_def vc)
  have fl: "interior_faces c (T\<lparr>Mdx2 := x\<rparr>) = interior_faces c T"
    by (intro ext) (simp add: interior_faces_def Mdx2_ignored)
  have rs: "residual c (T\<lparr>Mdx2 := x\<rparr>) = residual c T"
    by (intro ext) (simp add: residual_def vl fl Mdx2_ignored)
  have st: "stage c (T\<lparr>Mdx2 := x\<rparr>) = stage c T"
    by (intro ext) (simp add: stage_def rs)
  show "step c (T\<lparr>Mdx2 := x\<rparr>) = step c T"
    by (intro ext) (simp add: step_def st Mdx2_ignored)
qed

lemma time_loop_same_Some:
  assumes "time_loop c T s = Some y"
  shows "\<forall>T'. step c T' = step c T \<and> Tf T' = Tf T \<longrightarrow> time_loop c T' s = Some y"
proof (rule time_loop.raw_induct[where P = "\<lambda>c T s y.
    \<forall>T'. step c T' = step c T \<and> Tf T' = Tf T \<longrightarrow> time_loop c T' s = Some y", OF _ assms])
  fix loop c T s y
  assume IH: "\<And>c T s y. loop c T s = Some y \<Longrightarrow>
      \<forall>T'. step c T' = step c T \<and> Tf T' = Tf T \<longrightarrow> time_loop c T' s = Some y"
    and body: "(if t s < Tf T
       then case step c T s of Inl e \<Rightarrow> Some (Inl e) | Inr s' \<Rightarrow> loop c T s'
       else Some (Inr s)) = Some y"
  show "\<forall>T'. step c T' = step c T \<and> Tf T' = Tf T \<longrightarrow> time_loop c T' s = Some y"
  proof (intro allI impI)
    fix T' assume e: "step c T' = step c T \<and> Tf T' = Tf T"
    show "time_loop c T' s = Some y"
    proof (cases "t s < Tf T")
      case False
      then show ?thesis using body e by (simp add: time_loop_exit)
    next
      case True
      show ?thesis
      proof (cases "step c T s")
        case (Inl err)
        then have "y = Inl err" using True body by simp
        then show ?thesis using True Inl e by (subst time_loop.simps) simp
      next
        case (Inr s')
        then have "loop c T s' = Some y" using True body by simp
        from IH[OF this] e have "time_loop c T' s' = Some y" by blast
        then show ?thesis using True Inr e by (subst time_loop.simps) simp
      qed
    qed
  qed
qed

lemma time_loop_Mdx2: "time_loop c (T\<lparr>Mdx2 := x\<rparr>) s = time_loop c T s"
proof (cases "time_loop c T s")
  case (Some y)
  from time_loop_same_Some[OF this] show ?thesis
    using Some by (simp add: Mdx2_ignored_loops)
next
  case None
  show ?thesis
  proof (cases "time_loop c (T\<lparr>Mdx2 := x\<rparr>) s")
    case (Some y)
    from time_loop_same_Some[OF this, rule_format, of T] None show ?thesis
      by (simp add: Mdx2_ignored_loops)
  qed (simp add: None)
qed

text \<open>
  Claim C5 against the script. The options \<^verbatim>\<open>-limit\<close> and \<^verbatim>\<open>-tvbM\<close> are parsed and
  \<^verbatim>\<open>Mdx2 = tvbM * dx^2\<close> is computed (line 41), but no statement of the script reads
  \<^verbatim>\<open>args.limit\<close> or \<^verbatim>\<open>Mdx2\<close> afterwards and no limiter is called in the stage loop
  (lines 134 to 188). The whole run, whether it ends, raises or does not return, is the same
  for every value of the two options: with \<^verbatim>\<open>-limit yes\<close> it is the run with
  \<^verbatim>\<open>-limit no\<close>.
\<close>

theorem limiter_flag_ignored:
  "run c (a\<lparr>args_limit := l, args_tvbM := m\<rparr>) = run c a"
proof -
  have i: "init_tables c (a\<lparr>args_limit := l, args_tvbM := m\<rparr>) =
      (case init_tables c a of Inl e \<Rightarrow> Inl e
       | Inr T \<Rightarrow> Inr (T\<lparr>Mdx2 := m * dx T ^ 2\<rparr>))"
    by (simp add: init_tables_def Let_def case_prod_beta)
  show ?thesis
  proof (cases "init_tables c a")
    case (Inl e)
    then show ?thesis by (simp add: run_def prepare_def i)
  next
    case (Inr T)
    have "prepare c (a\<lparr>args_limit := l, args_tvbM := m\<rparr>) =
        (case prepare c a of Inl e \<Rightarrow> Inl e | Inr (T, s) \<Rightarrow> Inr (T\<lparr>Mdx2 := m * dx T ^ 2\<rparr>, s))"
      by (simp add: prepare_def i Inr Mdx2_ignored Mdx2_ignored_allocate Mdx2_ignored_loops bind_res_def
          split: sum.splits)
    then show ?thesis
      by (simp add: run_def time_loop_Mdx2 split: sum.splits prod.splits)
  qed
qed

section \<open>Configurations outside the intended range\<close>








end
